theory Spec2Isabelle
  imports Main "HOL-Library.Multiset"
begin

section \<open>Data model\<close>

text \<open>
  A JavaScript \<open>Date\<close> is a time value in milliseconds or the Invalid Date (time value NaN),
  which is what \<open>new Date(x)\<close> yields for a missing or unparsable \<open>x\<close>. The relational
  operator \<open>>\<close> on two dates compares the time values, and is false as soon as one of them
  is NaN.
\<close>

datatype jsdate = Valid int | Invalid

fun date_gt :: "jsdate \<Rightarrow> jsdate \<Rightarrow> bool" where
  "date_gt (Valid a) (Valid b) = (b < a)"
| "date_gt _ _ = False"

text \<open>
  The operation of an entry is a string. The type \<open>SyncQueueItem\<close> declares the three
  values \<open>create\<close>, \<open>update\<close> and \<open>delete\<close>, and the services write no other; the batch
  handler casts the body of a request to that type without a check, so there \<open>Other\<close> stands
  for any value that is none of the three.
\<close>

datatype operation = Create | Update | Delete | Other

datatype sync_status = Pending | Synced | SyncError

datatype status = Success | Conflict | Error

text \<open>The type \<open>Task\<close>: one row of the table \<open>tasks\<close>, as \<open>mapRowToTask\<close> returns it.\<close>

record task =
  id_task :: string
  title :: string
  description :: string
  completed :: bool
  created_at :: jsdate
  updated_at :: jsdate
  is_deleted :: bool
  sync_status :: sync_status
  server_id :: "string option"
  last_synced_at :: "jsdate option"

text \<open>
  The type \<open>Partial<Task>\<close>: every field of a task, each present or absent. It is the payload
  of a queue entry, the body of an update request and the \<open>resolved_data\<close> of a response.
  The values are those of a JSON document: a date field holds what \<open>new Date\<close> makes of
  the transmitted string.
\<close>

record partial_task =
  id_opt :: "string option"
  title_opt :: "string option"
  description_opt :: "string option"
  completed_opt :: "bool option"
  created_at_opt :: "jsdate option"
  updated_at_opt :: "jsdate option"
  is_deleted_opt :: "bool option"
  sync_status_opt :: "sync_status option"
  server_id_opt :: "string option"
  last_synced_at_opt :: "jsdate option"

text \<open>The type \<open>SyncQueueItem\<close>: one row of the table \<open>sync_queue\<close>.\<close>

record sync_queue_item =
  id_item :: string
  task_id :: string
  operation :: operation
  data :: partial_task
  created_at_item :: int
  retry_count :: nat
  error_message :: "string option"

record batch_sync_request =
  items :: "sync_queue_item list"
  client_timestamp :: int

text \<open>One element of \<open>BatchSyncResponse.processed_items\<close>.\<close>

record processed_item =
  client_id :: string
  server_id_resp :: string
  status :: status
  resolved_data :: "partial_task option"
  error :: "string option"

record sync_error =
  task_id_err :: string
  operation_err :: operation
  error_err :: string
  timestamp :: int

record sync_result =
  success :: bool
  synced_items :: nat
  failed_items :: nat
  errors :: "sync_error list"

text \<open>
  Modelled from the spec: the class \<open>Database\<close> and the schema are not among the sources.
  The record store and the outbox are durable tables; a table is the list of its rows in
  insertion order, \<open>INSERT\<close> appends a row, \<open>UPDATE ... WHERE\<close> rewrites the matching rows,
  \<open>DELETE ... WHERE\<close> removes them, \<open>get\<close> returns the first matching row. Statements
  complete, with one exception: section 3 of the spec lists \<open>title\<close> among the fields of a
  record and marks only \<open>last_synced_at\<close> and \<open>server_id\<close> optional, so an \<open>INSERT\<close> of a
  record with no title is rejected.

  A node is one process with its database: the two tables, and how many times the process
  has read the clock and drawn an identifier. The client and the server are two nodes.
\<close>

record node =
  tasks :: "task list"
  sync_queue :: "sync_queue_item list"
  dates_read :: nat
  uuids_drawn :: nat

text \<open>
  The environment of a node: the \<open>n\<close>-th reading of the clock (in milliseconds) and the
  \<open>n\<close>-th identifier that \<open>uuidv4\<close> returns.
\<close>

record env =
  clock :: "nat \<Rightarrow> int"
  uuid :: "nat \<Rightarrow> string"

definition new_Date :: "env \<Rightarrow> node \<Rightarrow> int \<times> node" where
  "new_Date e s = (clock e (dates_read s), s\<lparr>dates_read := Suc (dates_read s)\<rparr>)"

definition uuidv4 :: "env \<Rightarrow> node \<Rightarrow> string \<times> node" where
  "uuidv4 e s = (uuid e (uuids_drawn s), s\<lparr>uuids_drawn := Suc (uuids_drawn s)\<rparr>)"

text \<open>The empty object \<open>{}\<close>.\<close>

definition no_fields :: partial_task where
  "no_fields = \<lparr>id_opt = None, title_opt = None, description_opt = None,
     completed_opt = None, created_at_opt = None, updated_at_opt = None,
     is_deleted_opt = None, sync_status_opt = None, server_id_opt = None,
     last_synced_at_opt = None\<rparr>"

text \<open>
  A task as it is serialised into a response: every column is a key of the object, except
  that a null \<open>server_id\<close> is not truthy and an undefined \<open>last_synced_at\<close> is left out.
\<close>

definition task_json :: "task \<Rightarrow> partial_task" where
  "task_json t = \<lparr>id_opt = Some (id_task t), title_opt = Some (title t),
     description_opt = Some (description t), completed_opt = Some (completed t),
     created_at_opt = Some (created_at t), updated_at_opt = Some (updated_at t),
     is_deleted_opt = Some (is_deleted t), sync_status_opt = Some (sync_status t),
     server_id_opt = server_id t, last_synced_at_opt = last_synced_at t\<rparr>"

section \<open>TaskService\<close>

definition addToSyncQueue ::
  "env \<Rightarrow> string \<Rightarrow> operation \<Rightarrow> partial_task \<Rightarrow> node \<Rightarrow> node" where
  "addToSyncQueue e taskId op d s =
     (let (u, s1) = uuidv4 e s;
          (now, s2) = new_Date e s1;
          item = \<lparr>id_item = u, task_id = taskId, operation = op, data = d,
                  created_at_item = now, retry_count = 0, error_message = None\<rparr>
      in s2\<lparr>sync_queue := sync_queue s2 @ [item]\<rparr>)"

definition getTask :: "node \<Rightarrow> string \<Rightarrow> task option" where
  "getTask s i = find (\<lambda>t. id_task t = i \<and> \<not> is_deleted t) (tasks s)"

definition getTaskById :: "node \<Rightarrow> string \<Rightarrow> task option" where
  "getTaskById s i = find (\<lambda>t. id_task t = i) (tasks s)"

definition getAllTasks :: "node \<Rightarrow> task list" where
  "getAllTasks s = filter (\<lambda>t. \<not> is_deleted t) (tasks s)"

definition getTasksNeedingSync :: "node \<Rightarrow> task list" where
  "getTasksNeedingSync s =
     filter (\<lambda>t. sync_status t = Pending \<or> sync_status t = SyncError) (tasks s)"

text \<open>
  Modelled from the spec: the schema of the table \<open>tasks\<close> is not among the sources.
  Section 3 of the spec makes \<open>title\<close> a field of every record, so the insertion of a
  record whose title is undefined is rejected, with this message.
\<close>

definition title_required :: string where
  "title_required = ''SQLITE_CONSTRAINT: NOT NULL constraint failed: tasks.title''"

text \<open>
  \<open>createTask\<close> returns what \<open>getTaskById\<close> finds for the new identifier (the source
  asserts with \<open>!\<close> that it is not null, which checks nothing at run time), or throws when
  the insertion is rejected: \<open>Inl\<close> carries the message of the error thrown.
\<close>

definition createTask :: "env \<Rightarrow> partial_task \<Rightarrow> node \<Rightarrow> (string + task option) \<times> node" where
  "createTask e taskData s =
     (let (now, s1) = new_Date e s;
          (u, s2) = uuidv4 e s1
      in (case title_opt taskData of
           None \<Rightarrow> (Inl title_required, s2)
         | Some ttl \<Rightarrow>
            (let descr = (case description_opt taskData of None \<Rightarrow> [] | Some d \<Rightarrow> d);
                 newTask = \<lparr>id_task = u, title = ttl, description = descr,
                            completed = False, created_at = Valid now, updated_at = Valid now,
                            is_deleted = False, sync_status = Pending,
                            server_id = None, last_synced_at = None\<rparr>;
                 s3 = s2\<lparr>tasks := tasks s2 @ [newTask]\<rparr>;
                 s4 = addToSyncQueue e u Create
                        (no_fields\<lparr>title_opt := Some ttl, description_opt := Some descr\<rparr>) s3
             in (Inr (getTaskById s4 u), s4))))"

text \<open>\<open>UPDATE tasks SET k = ?\<close> for every key \<open>k\<close> of the object, on one row.\<close>

definition set_columns :: "partial_task \<Rightarrow> task \<Rightarrow> task" where
  "set_columns p t =
     \<lparr>id_task = (case id_opt p of None \<Rightarrow> id_task t | Some v \<Rightarrow> v),
      title = (case title_opt p of None \<Rightarrow> title t | Some v \<Rightarrow> v),
      description = (case description_opt p of None \<Rightarrow> description t | Some v \<Rightarrow> v),
      completed = (case completed_opt p of None \<Rightarrow> completed t | Some v \<Rightarrow> v),
      created_at = (case created_at_opt p of None \<Rightarrow> created_at t | Some v \<Rightarrow> v),
      updated_at = (case updated_at_opt p of None \<Rightarrow> updated_at t | Some v \<Rightarrow> v),
      is_deleted = (case is_deleted_opt p of None \<Rightarrow> is_deleted t | Some v \<Rightarrow> v),
      sync_status = (case sync_status_opt p of None \<Rightarrow> sync_status t | Some v \<Rightarrow> v),
      server_id = (case server_id_opt p of None \<Rightarrow> server_id t | Some v \<Rightarrow> Some v),
      last_synced_at =
        (case last_synced_at_opt p of None \<Rightarrow> last_synced_at t | Some v \<Rightarrow> Some v)\<rparr>"

definition update_tasks :: "partial_task \<Rightarrow> string \<Rightarrow> task list \<Rightarrow> task list" where
  "update_tasks p i ts = map (\<lambda>t. if id_task t = i then set_columns p t else t) ts"

definition updateTask :: "env \<Rightarrow> string \<Rightarrow> partial_task \<Rightarrow> node \<Rightarrow> task option \<times> node" where
  "updateTask e i updates s =
     (case getTaskById s i of
        None \<Rightarrow> (None, s)
      | Some _ \<Rightarrow>
          let (now, s1) = new_Date e s;
              updateData = updates\<lparr>updated_at_opt := Some (Valid now),
                                   sync_status_opt := Some Pending\<rparr>;
              s2 = s1\<lparr>tasks := update_tasks updateData i (tasks s1)\<rparr>;
              s3 = addToSyncQueue e i Update updates s2
          in (getTask s3 i, s3))"

definition deleteTask :: "env \<Rightarrow> string \<Rightarrow> node \<Rightarrow> bool \<times> node" where
  "deleteTask e i s =
     (case getTaskById s i of
        None \<Rightarrow> (False, s)
      | Some _ \<Rightarrow>
          let (now, s1) = new_Date e s;
              s2 = s1\<lparr>tasks := update_tasks
                     (no_fields\<lparr>is_deleted_opt := Some True, updated_at_opt := Some (Valid now),
                                sync_status_opt := Some Pending\<rparr>) i (tasks s1)\<rparr>;
              s3 = addToSyncQueue e i Delete no_fields s2
          in (True, s3))"

section \<open>The batch handler of the server\<close>

definition newTask_is_null :: string where
  "newTask_is_null = ''Cannot read properties of null (reading 'id')''"

text \<open>
  The body of the \<open>try\<close> block for one item: the outcome pushed, if one is pushed, or the
  message of the error thrown, with the database as the statements executed so far have
  left it. The chain of \<open>if\<close>/\<open>else if\<close> over the operation has no final \<open>else\<close>: for an
  operation that is none of the three nothing is pushed and nothing is thrown.
\<close>

definition create_outcome ::
  "string \<Rightarrow> (string + task option) \<times> node \<Rightarrow> (string + processed_item option) \<times> node" where
  "create_outcome taskId r =
     (case r of
        (Inl msg, s') \<Rightarrow> (Inl msg, s')
      | (Inr None, s') \<Rightarrow> (Inl newTask_is_null, s')
      | (Inr (Some newTask), s') \<Rightarrow>
          (Inr (Some \<lparr>client_id = taskId, server_id_resp = id_task newTask, status = Success,
                      resolved_data = Some (task_json newTask), error = None\<rparr>), s'))"

definition new_Date_of :: "jsdate option \<Rightarrow> jsdate" where
  "new_Date_of v = (case v of None \<Rightarrow> Invalid | Some d \<Rightarrow> d)"

definition process_item ::
  "env \<Rightarrow> sync_queue_item \<Rightarrow> node \<Rightarrow> (string + processed_item option) \<times> node" where
  "process_item e item s =
     (let localTask = getTaskById s (task_id item) in
      case operation item of
        Create \<Rightarrow> create_outcome (task_id item) (createTask e (data item) s)
      | Update \<Rightarrow>
          (case localTask of
             None \<Rightarrow> create_outcome (task_id item) (createTask e (data item) s)
           | Some lt \<Rightarrow>
               let clientUpdatedAt = new_Date_of (updated_at_opt (data item));
                   serverUpdatedAt = updated_at lt
               in if date_gt clientUpdatedAt serverUpdatedAt
                  then (let (updatedTask, s') = updateTask e (task_id item) (data item) s
                        in (Inr (Some \<lparr>client_id = task_id item,
                                        server_id_resp = task_id item, status = Success,
                                        resolved_data = map_option task_json updatedTask,
                                        error = None\<rparr>), s'))
                  else (Inr (Some \<lparr>client_id = task_id item, server_id_resp = task_id item,
                                    status = Conflict, resolved_data = Some (task_json lt),
                                    error = None\<rparr>), s))
      | Delete \<Rightarrow>
          (let s' = (case localTask of None \<Rightarrow> s | Some _ \<Rightarrow> snd (deleteTask e (task_id item) s))
           in (Inr (Some \<lparr>client_id = task_id item, server_id_resp = task_id item,
                           status = Success, resolved_data = None, error = None\<rparr>), s'))
      | Other \<Rightarrow> (Inr None, s))"

text \<open>The \<open>try\<close>/\<open>catch\<close> around one item, and the loop over the items of the request.\<close>

definition handle_item ::
  "env \<Rightarrow> sync_queue_item \<Rightarrow> node \<Rightarrow> processed_item option \<times> node" where
  "handle_item e item s =
     (case process_item e item s of
        (Inr pushed, s') \<Rightarrow> (pushed, s')
      | (Inl message, s') \<Rightarrow>
          (Some \<lparr>client_id = task_id item, server_id_resp = [], status = Error,
                 resolved_data = None, error = Some message\<rparr>, s'))"

fun batch :: "env \<Rightarrow> sync_queue_item list \<Rightarrow> node \<Rightarrow> processed_item list \<times> node" where
  "batch e [] s = ([], s)"
| "batch e (item # rest) s =
     (let (pushed, s1) = handle_item e item s;
          (outcomes, s2) = batch e rest s1
      in (case pushed of None \<Rightarrow> (outcomes, s2) | Some outcome \<Rightarrow> (outcome # outcomes, s2)))"

section \<open>SyncService\<close>

text \<open>
  \<open>SELECT * FROM sync_queue ORDER BY created_at ASC\<close>: the rows sorted by their time of
  creation, rows of equal time in the order of the table. The column holds the ISO string
  of the time, which orders as the time in milliseconds does (for the years 0000 to 9999).
\<close>

definition getSyncQueueItems :: "node \<Rightarrow> sync_queue_item list" where
  "getSyncQueueItems s = sort_key created_at_item (sync_queue s)"

text \<open>
  The loop \<open>for (let i = 0; i < items.length; i += batchSize)\<close>, where \<open>items.slice(i, i +
  batchSize)\<close> is \<open>take batchSize (drop i items)\<close>. The batch size comes from the
  configuration of the process and is a parameter here, a natural number. Nothing bounds
  the loop when the size is 0: then it does not return, which is the value \<open>None\<close>.
\<close>

partial_function (option) build_batches ::
  "nat \<Rightarrow> nat \<Rightarrow> 'a list \<Rightarrow> 'a list list \<Rightarrow> 'a list list option" where
  "build_batches batchSize i its batches =
     (if i < length its
      then build_batches batchSize (i + batchSize) its
             (batches @ [take batchSize (drop i its)])
      else Some batches)"

declare build_batches.simps [code]

definition update_queue ::
  "string \<Rightarrow> nat \<Rightarrow> string \<Rightarrow> sync_queue_item list \<Rightarrow> sync_queue_item list" where
  "update_queue i n msg q =
     map (\<lambda>r. if id_item r = i then r\<lparr>retry_count := n, error_message := Some msg\<rparr> else r) q"

text \<open>The template string \<open>`Permanent failure: ${error.message}`\<close>.\<close>

definition permanent_failure :: "string \<Rightarrow> string" where
  "permanent_failure message = ''Permanent failure: '' @ message"

definition handleSyncError :: "sync_queue_item \<Rightarrow> string \<Rightarrow> node \<Rightarrow> node" where
  "handleSyncError item message s =
     (let maxRetries = 3;
          newRetryCount = retry_count item + 1
      in if newRetryCount \<ge> maxRetries
         then s\<lparr>tasks := update_tasks (no_fields\<lparr>sync_status_opt := Some SyncError\<rparr>)
                            (task_id item) (tasks s),
                sync_queue := update_queue (id_item item) newRetryCount
                                (permanent_failure message) (sync_queue s)\<rparr>
         else s\<lparr>sync_queue := update_queue (id_item item) newRetryCount message
                                (sync_queue s)\<rparr>)"

definition invalid_time_value :: string where
  "invalid_time_value = ''Invalid time value''"

text \<open>
  The fields that \<open>updateSyncStatus\<close> copies from the resolved snapshot of the server.
  \<open>toISOString\<close> throws a RangeError on an Invalid Date.
\<close>

definition server_fields :: "partial_task option \<Rightarrow> partial_task \<Rightarrow> string + partial_task" where
  "server_fields serverData updateFields =
     (case serverData of
        None \<Rightarrow> Inr updateFields
      | Some sd \<Rightarrow>
         (let f1 = (case server_id_opt sd of
                      None \<Rightarrow> updateFields
                    | Some v \<Rightarrow> if v \<noteq> [] then updateFields\<lparr>server_id_opt := Some v\<rparr>
                                else updateFields);
              f2 = (case title_opt sd of None \<Rightarrow> f1 | Some v \<Rightarrow> f1\<lparr>title_opt := Some v\<rparr>);
              f3 = (case description_opt sd of
                      None \<Rightarrow> f2 | Some v \<Rightarrow> f2\<lparr>description_opt := Some v\<rparr>);
              f4 = (case completed_opt sd of
                      None \<Rightarrow> f3 | Some v \<Rightarrow> f3\<lparr>completed_opt := Some v\<rparr>)
          in (case updated_at_opt sd of
                None \<Rightarrow> Inr f4
              | Some Invalid \<Rightarrow> Inl invalid_time_value
              | Some (Valid t) \<Rightarrow> Inr (f4\<lparr>updated_at_opt := Some (Valid t)\<rparr>))))"

definition updateSyncStatus ::
  "env \<Rightarrow> string \<Rightarrow> sync_status \<Rightarrow> partial_task option \<Rightarrow> node \<Rightarrow> (string + unit) \<times> node" where
  "updateSyncStatus e queueItemId st serverData s =
     (if st = Synced
      then (case find (\<lambda>r. id_item r = queueItemId) (sync_queue s) of
              None \<Rightarrow> (Inr (), s)
            | Some item \<Rightarrow>
               (let taskId = task_id item;
                    (now, s1) = new_Date e s
                in (case server_fields serverData
                           (no_fields\<lparr>sync_status_opt := Some Synced,
                                      last_synced_at_opt := Some (Valid now)\<rparr>) of
                      Inl msg \<Rightarrow> (Inl msg, s1)
                    | Inr updateFields \<Rightarrow>
                        (Inr (), s1\<lparr>tasks := update_tasks updateFields taskId (tasks s1),
                                    sync_queue := filter (\<lambda>r. id_item r \<noteq> queueItemId)
                                                    (sync_queue s1)\<rparr>))))
      else (Inr (), s))"

definition undefined_id :: string where
  "undefined_id = ''Cannot read properties of undefined (reading 'id')''"

definition undefined_retry_count :: string where
  "undefined_retry_count = ''Cannot read properties of undefined (reading 'retry_count')''"

definition unknown_error :: string where
  "unknown_error = ''Unknown error''"

text \<open>
  The loop over \<open>batchResponse.processed_items\<close> inside the \<open>try\<close> block. The first
  component is the message of the error that left the loop, if one was thrown.
  \<open>batch.find\<close> returns the first item of the batch with the outcome's record id, or
  \<open>undefined\<close>, whose fields cannot be read.
\<close>

fun reconcile ::
  "env \<Rightarrow> sync_queue_item list \<Rightarrow> processed_item list \<Rightarrow> sync_result \<times> node
     \<Rightarrow> string option \<times> sync_result \<times> node" where
  "reconcile e b [] (results, s) = (None, results, s)"
| "reconcile e b (processed # rest) (results, s) =
     (let originalItem = find (\<lambda>item. task_id item = client_id processed) b in
      if status processed = Success \<or> status processed = Conflict
      then (let results1 = results\<lparr>synced_items := synced_items results + 1\<rparr> in
            case originalItem of
              None \<Rightarrow> (Some undefined_id, results1, s)
            | Some oi \<Rightarrow>
                (case updateSyncStatus e (id_item oi) Synced (resolved_data processed) s of
                   (Inl msg, s1) \<Rightarrow> (Some msg, results1, s1)
                 | (Inr _, s1) \<Rightarrow> reconcile e b rest (results1, s1)))
      else (let results1 = results\<lparr>failed_items := failed_items results + 1\<rparr> in
            case originalItem of
              None \<Rightarrow> (Some undefined_retry_count, results1, s)
            | Some oi \<Rightarrow>
                let s1 = handleSyncError oi (case error processed of None \<Rightarrow> [] | Some m \<Rightarrow> m) s;
                    (now, s2) = new_Date e s1;
                    results2 = results1\<lparr>errors := errors results1 @
                      [\<lparr>task_id_err = client_id processed, operation_err = operation oi,
                        error_err = (case error processed of
                                       None \<Rightarrow> unknown_error
                                     | Some m \<Rightarrow> if m = [] then unknown_error else m),
                        timestamp = now\<rparr>]\<rparr>
                in reconcile e b rest (results2, s2)))"

text \<open>The loop of the \<open>catch\<close> block over the items of the batch.\<close>

fun fail_items ::
  "env \<Rightarrow> string \<Rightarrow> sync_queue_item list \<Rightarrow> sync_result \<times> node \<Rightarrow> sync_result \<times> node" where
  "fail_items e message [] (results, s) = (results, s)"
| "fail_items e message (item # rest) (results, s) =
     (let s1 = handleSyncError item message s;
          (now, s2) = new_Date e s1;
          results1 = results\<lparr>errors := errors results @
            [\<lparr>task_id_err = task_id item, operation_err = operation item,
              error_err = message, timestamp = now\<rparr>]\<rparr>
      in fail_items e message rest (results1, s2))"

definition catch_batch ::
  "env \<Rightarrow> string \<Rightarrow> sync_queue_item list \<Rightarrow> sync_result \<times> node \<Rightarrow> sync_result \<times> node" where
  "catch_batch e message b rs =
     (case rs of (results, s) \<Rightarrow>
        fail_items e message b
          (results\<lparr>success := False, failed_items := failed_items results + length b\<rparr>, s))"

text \<open>
  The transport: \<open>axios.post\<close> of the request to the remote side, which is in some state
  \<open>'r\<close>. It answers with the processed items, or fails (\<open>Inl\<close> carries the message of the
  error), and leaves the remote side in a new state.
\<close>

type_synonym 'r transport =
  "'r \<Rightarrow> batch_sync_request \<Rightarrow> (string + processed_item list) \<times> 'r"

text \<open>
  The \<open>try\<close>/\<open>catch\<close> statement of one batch, given what \<open>processBatch\<close> did: it returned
  the response, or threw.
\<close>

definition try_batch ::
  "env \<Rightarrow> sync_queue_item list \<Rightarrow> string + processed_item list \<Rightarrow> sync_result \<times> node
     \<Rightarrow> sync_result \<times> node" where
  "try_batch e b response rs =
     (case response of
        Inl message \<Rightarrow> catch_batch e message b rs
      | Inr processed_items \<Rightarrow>
          (case reconcile e b processed_items rs of
             (None, results1, s1) \<Rightarrow> (results1, s1)
           | (Some message, results1, s1) \<Rightarrow> catch_batch e message b (results1, s1)))"

text \<open>
  \<open>processBatch\<close> builds the request with the current time and posts it: the response or
  the failure, the node after the reading of the clock, and the remote side after the
  exchange.
\<close>

definition processBatch ::
  "env \<Rightarrow> 'r transport \<Rightarrow> sync_queue_item list \<Rightarrow> node \<times> 'r
     \<Rightarrow> (string + processed_item list) \<times> node \<times> 'r" where
  "processBatch e tr its st =
     (case st of (s, r) \<Rightarrow>
       (let (now, s1) = new_Date e s;
            request = \<lparr>items = its, client_timestamp = now\<rparr>;
            (response, r1) = tr r request
        in (response, s1, r1)))"

text \<open>One turn of the loop over the batches.\<close>

definition sync_batch ::
  "env \<Rightarrow> 'r transport \<Rightarrow> sync_queue_item list \<Rightarrow> sync_result \<times> node \<times> 'r
     \<Rightarrow> sync_result \<times> node \<times> 'r" where
  "sync_batch e tr b st =
     (case st of (results, s, r) \<Rightarrow>
       (let (response, s1, r1) = processBatch e tr b (s, r);
            (results', s') = try_batch e b response (results, s1)
        in (results', s', r1)))"

definition sync ::
  "env \<Rightarrow> nat \<Rightarrow> 'r transport \<Rightarrow> node \<times> 'r \<Rightarrow> (sync_result \<times> node \<times> 'r) option" where
  "sync e batchSize tr st =
     (case st of (s, r) \<Rightarrow>
        let its = getSyncQueueItems s in
        if length its = 0
        then Some (\<lparr>success = True, synced_items = 0, failed_items = 0, errors = []\<rparr>, s, r)
        else (case build_batches batchSize 0 its [] of
                None \<Rightarrow> None
              | Some batches \<Rightarrow>
                  (case fold (sync_batch e tr) batches
                          (\<lparr>success = True, synced_items = 0, failed_items = 0, errors = []\<rparr>,
                           s, r) of
                     (results, s', r') \<Rightarrow>
                       Some (results\<lparr>success := (failed_items results = 0)\<rparr>, s', r'))))"

text \<open>The remote side of a real exchange: the batch handler of a server node.\<close>

definition server :: "env \<Rightarrow> node transport" where
  "server e r request = (case batch e (items request) r of (outs, r') \<Rightarrow> (Inr outs, r'))"

text \<open>
  A transport that also records every request it receives with the answer it gave: the
  mock of the remote side that a test of the transmission order uses.
\<close>

definition recording ::
  "'r transport \<Rightarrow> ('r \<times> (batch_sync_request \<times> (string + processed_item list)) list) transport" where
  "recording tr rl request =
     (case rl of (r, log) \<Rightarrow>
        (case tr r request of (answer, r') \<Rightarrow> (answer, (r', log @ [(request, answer)]))))"

text \<open>The rows of the outbox that have a given id.\<close>

definition rows_of :: "string \<Rightarrow> node \<Rightarrow> sync_queue_item list" where
  "rows_of i s = filter (\<lambda>r. id_item r = i) (sync_queue s)"

section \<open>Scenarios\<close>

text \<open>
  Two concrete environments, for a client and for a server: clocks that advance by one
  millisecond per reading, and identifiers \<open>c, cx, cxx, ...\<close> and \<open>s, sx, sxx, ...\<close>.
\<close>

definition demo_client :: env where
  "demo_client = \<lparr>clock = (\<lambda>n. 1000 + int n), uuid = (\<lambda>n. CHR ''c'' # replicate n CHR ''x'')\<rparr>"

definition demo_server :: env where
  "demo_server = \<lparr>clock = (\<lambda>n. 5000 + int n), uuid = (\<lambda>n. CHR ''s'' # replicate n CHR ''x'')\<rparr>"

definition empty_node :: node where
  "empty_node = \<lparr>tasks = [], sync_queue = [], dates_read = 0, uuids_drawn = 0\<rparr>"

text \<open>A server that holds one record, with id \<open>s\<close> and \<open>updated_at = 5000\<close>.\<close>

definition remote_with_task :: node where
  "remote_with_task = snd (createTask demo_server (no_fields\<lparr>title_opt := Some ''A''\<rparr>) empty_node)"

definition delete_entry :: sync_queue_item where
  "delete_entry = \<lparr>id_item = ''q1'', task_id = ''s'', operation = Delete, data = no_fields,
     created_at_item = 2000, retry_count = 0, error_message = None\<rparr>"



text \<open>
  A client that has created the record \<open>c\<close> with title \<open>A\<close>; the same client after it has
  then updated the title to \<open>B\<close>, before any sync; and after it has instead deleted the
  record. The outbox entry of the creation is \<open>queued_create\<close>.
\<close>

definition created_node :: node where
  "created_node = snd (createTask demo_client (no_fields\<lparr>title_opt := Some ''A''\<rparr>) empty_node)"

definition edited_node :: node where
  "edited_node =
     snd (updateTask demo_client ''c'' (no_fields\<lparr>title_opt := Some ''B''\<rparr>) created_node)"

definition deleted_node :: node where
  "deleted_node = snd (deleteTask demo_client ''c'' created_node)"

definition queued_create :: sync_queue_item where
  "queued_create = \<lparr>id_item = ''cx'', task_id = ''c'', operation = Create,
     data = no_fields\<lparr>title_opt := Some ''A'', description_opt := Some []\<rparr>,
     created_at_item = 1001, retry_count = 0, error_message = None\<rparr>"

text \<open>
  The server of \<open>remote_with_task\<close> after it has soft-deleted its record \<open>s\<close> (at time 5002),
  and an update entry for that record whose payload carries a later \<open>updated_at\<close>.
\<close>

definition remote_deleted :: node where
  "remote_deleted = snd (deleteTask demo_server ''s'' remote_with_task)"

definition newer_update :: sync_queue_item where
  "newer_update = \<lparr>id_item = ''q1'', task_id = ''s'', operation = Update,
     data = no_fields\<lparr>title_opt := Some ''B'', updated_at_opt := Some (Valid 9000)\<rparr>,
     created_at_item = 2000, retry_count = 0, error_message = None\<rparr>"

text \<open>A transport that fails on every request, as when the network is unreachable.\<close>

definition offline :: "unit transport" where
  "offline r request = (Inl ''Network Error'', r)"

text \<open>
  A transport whose remote side answers every request with the same outcomes, and two
  outcomes for the record \<open>c\<close>.
\<close>

definition answering :: "processed_item list \<Rightarrow> unit transport" where
  "answering outcomes r request = (Inr outcomes, r)"

definition error_outcome :: processed_item where
  "error_outcome = \<lparr>client_id = ''c'', server_id_resp = [], status = Error,
     resolved_data = None, error = Some ''boom''\<rparr>"

definition success_outcome :: processed_item where
  "success_outcome = \<lparr>client_id = ''c'', server_id_resp = ''c'', status = Success,
     resolved_data = None, error = None\<rparr>"

section \<open>TaskService and the batch handler: properties\<close>

lemma id_task_set_columns: "id_opt p = None \<Longrightarrow> id_task (set_columns p t) = id_task t"
  by (simp add: set_columns_def)

lemma find_update_tasks:
  "id_opt p = None \<Longrightarrow>
   find (\<lambda>t. id_task t = i) (update_tasks p j ts) =
     map_option (\<lambda>t. if id_task t = j then set_columns p t else t) (find (\<lambda>t. id_task t = i) ts)"
  by (induction ts) (simp_all add: update_tasks_def id_task_set_columns)

lemma tasks_addToSyncQueue: "tasks (addToSyncQueue e i op d s) = tasks s"
  by (simp add: addToSyncQueue_def uuidv4_def new_Date_def)

lemma sync_queue_addToSyncQueue:
  "sync_queue (addToSyncQueue e i op d s) =
     sync_queue s @ [\<lparr>id_item = uuid e (uuids_drawn s), task_id = i, operation = op, data = d,
        created_at_item = clock e (dates_read s), retry_count = 0, error_message = None\<rparr>]"
  by (simp add: addToSyncQueue_def uuidv4_def new_Date_def)

lemma deleteTask_absent: "getTaskById s i = None \<Longrightarrow> deleteTask e i s = (False, s)"
  by (simp add: deleteTask_def)

lemma find_SomeD: "find P xs = Some x \<Longrightarrow> P x \<and> x \<in> set xs"
  by (induction xs) (auto split: if_splits)

lemma deleteTask_present:
  assumes "getTaskById s i = Some t"
  shows "\<exists>t'. getTaskById (snd (deleteTask e i s)) i = Some t' \<and> is_deleted t'"
proof -
  have "id_task t = i"
    using assms find_SomeD [of "\<lambda>t. id_task t = i" "tasks s" t] by (simp add: getTaskById_def)
  then show ?thesis
    using assms
    by (simp add: deleteTask_def getTaskById_def new_Date_def tasks_addToSyncQueue
        find_update_tasks no_fields_def set_columns_def)
qed

lemma process_item_delete:
  "operation item = Delete \<Longrightarrow>
   process_item e item s =
     (Inr (Some \<lparr>client_id = task_id item, server_id_resp = task_id item, status = Success,
                 resolved_data = None, error = None\<rparr>),
      case getTaskById s (task_id item) of None \<Rightarrow> s
      | Some _ \<Rightarrow> snd (deleteTask e (task_id item) s))"
  by (simp add: process_item_def)

text \<open>
  Claim C9. The delete branch of the resolver always pushes an outcome, \<open>success\<close>, whether
  or not the target exists; when it exists it is soft-deleted, when it does not the store
  is left as it was; and a second delete of the same id (the record is then already
  soft-deleted, or still absent) is answered \<open>success\<close> again, not \<open>error\<close>.
\<close>

theorem delete_is_idempotent:
  assumes "operation item = Delete"
  shows "fst (handle_item e item s) =
           Some \<lparr>client_id = task_id item, server_id_resp = task_id item, status = Success,
                 resolved_data = None, error = None\<rparr>
       \<and> (case getTaskById s (task_id item) of
            None \<Rightarrow> snd (handle_item e item s) = s
          | Some t \<Rightarrow> (\<exists>t'. getTaskById (snd (handle_item e item s)) (task_id item) = Some t'
                          \<and> is_deleted t'))
       \<and> map_option status (fst (handle_item e item (snd (handle_item e item s)))) = Some Success"
  using assms
  by (auto simp: handle_item_def process_item_delete deleteTask_present split: option.splits)

theorem delete_is_idempotent_witness:
  "operation delete_entry = Delete
   \<and> map_option status (fst (handle_item demo_server delete_entry remote_with_task)) = Some Success
   \<and> (\<exists>t'. getTaskById (snd (handle_item demo_server delete_entry remote_with_task)) ''s''
              = Some t' \<and> is_deleted t')
   \<and> map_option status (fst (handle_item demo_server delete_entry
         (snd (handle_item demo_server delete_entry remote_with_task)))) = Some Success"
proof -
  have h: "operation delete_entry = Delete"
    by (simp add: delete_entry_def)
  have i: "task_id delete_entry = ''s''"
    by (simp add: delete_entry_def)
  have g: "getTaskById remote_with_task ''s'' \<noteq> None"
    by code_simp
  show ?thesis
    using delete_is_idempotent [OF h, of demo_server remote_with_task] h i g
    by (auto split: option.splits)
qed














lemma updateTask_absent: "getTaskById s i = None \<Longrightarrow> updateTask e i updates s = (None, s)"
  by (simp add: updateTask_def)

lemma updateTask_present:
  assumes "getTaskById s i = Some t"
  shows "tasks (snd (updateTask e i updates s)) =
           update_tasks (updates\<lparr>updated_at_opt := Some (Valid (clock e (dates_read s))),
                                  sync_status_opt := Some Pending\<rparr>) i (tasks s)"
    and "sync_queue (snd (updateTask e i updates s)) =
           sync_queue s @ [\<lparr>id_item = uuid e (uuids_drawn s), task_id = i, operation = Update,
             data = updates, created_at_item = clock e (Suc (dates_read s)), retry_count = 0,
             error_message = None\<rparr>]"
    and "fst (updateTask e i updates s) = getTask (snd (updateTask e i updates s)) i"
  using assms
  by (simp_all add: updateTask_def new_Date_def tasks_addToSyncQueue sync_queue_addToSyncQueue
      Let_def)

lemma resolver_update_present:
  assumes "operation item = Update" and "getTaskById s (task_id item) = Some lt"
  shows "handle_item e item s =
     (if date_gt (new_Date_of (updated_at_opt (data item))) (updated_at lt)
      then (Some \<lparr>client_id = task_id item, server_id_resp = task_id item, status = Success,
             resolved_data = map_option task_json (fst (updateTask e (task_id item) (data item) s)),
             error = None\<rparr>, snd (updateTask e (task_id item) (data item) s))
      else (Some \<lparr>client_id = task_id item, server_id_resp = task_id item, status = Conflict,
             resolved_data = Some (task_json lt), error = None\<rparr>, s))"
  using assms by (simp add: handle_item_def process_item_def Let_def split_beta)

text \<open>
  Claim C3, as amended. The outbox entry that \<open>updateTask\<close> appends is of kind \<open>update\<close>
  and carries exactly the fields the caller supplied. When these have no \<open>updated_at\<close>,
  the entry has none, and the resolver answers it, for every remote store that holds the
  record, with \<open>conflict\<close> and the snapshot of the remote record, and leaves the store
  as it was.
\<close>

theorem update_without_timestamp_never_wins:
  assumes "getTaskById s i = Some t" and "updated_at_opt updates = None"
  shows "\<exists>q. sync_queue (snd (updateTask e i updates s)) = sync_queue s @ [q]
           \<and> operation q = Update \<and> task_id q = i \<and> data q = updates
           \<and> updated_at_opt (data q) = None
           \<and> (\<forall>e' r lt. getTaskById r i = Some lt \<longrightarrow>
                 handle_item e' q r =
                   (Some \<lparr>client_id = i, server_id_resp = i, status = Conflict,
                          resolved_data = Some (task_json lt), error = None\<rparr>, r))"
proof -
  let ?q = "\<lparr>id_item = uuid e (uuids_drawn s), task_id = i, operation = Update,
             data = updates, created_at_item = clock e (Suc (dates_read s)), retry_count = 0,
             error_message = None\<rparr>"
  have "sync_queue (snd (updateTask e i updates s)) = sync_queue s @ [?q]"
    using updateTask_present(2) [OF assms(1)] .
  moreover have "handle_item e' ?q r =
                   (Some \<lparr>client_id = i, server_id_resp = i, status = Conflict,
                          resolved_data = Some (task_json lt), error = None\<rparr>, r)"
    if "getTaskById r i = Some lt" for e' r lt
    using resolver_update_present [of ?q r lt e'] that assms(2)
    by (simp add: new_Date_of_def)
  ultimately show ?thesis
    using assms(2) by (intro exI [of _ ?q]) simp
qed

text \<open>
  The claim as stated fails for a caller that supplies \<open>updated_at\<close> among the fields: the
  entry then carries it, and the resolver lets the update win over an older remote record.
\<close>

theorem update_with_timestamp_wins_counterexample:
  "operation (last (sync_queue (snd (updateTask demo_client ''c''
       (no_fields\<lparr>title_opt := Some ''B'', updated_at_opt := Some (Valid 9000)\<rparr>) created_node)))) = Update
   \<and> updated_at_opt (data (last (sync_queue (snd (updateTask demo_client ''c''
       (no_fields\<lparr>title_opt := Some ''B'', updated_at_opt := Some (Valid 9000)\<rparr>) created_node)))))
        = Some (Valid 9000)
   \<and> getTaskById created_node ''c'' \<noteq> None
   \<and> map_option status (fst (handle_item demo_server
        (last (sync_queue (snd (updateTask demo_client ''c''
           (no_fields\<lparr>title_opt := Some ''B'', updated_at_opt := Some (Valid 9000)\<rparr>) created_node))))
        created_node)) = Some Success"
  by code_simp

theorem update_without_timestamp_never_wins_witness:
  "getTaskById created_node ''c'' \<noteq> None
   \<and> updated_at_opt (no_fields\<lparr>title_opt := Some ''B''\<rparr>) = None
   \<and> (\<exists>q. sync_queue (snd (updateTask demo_client ''c'' (no_fields\<lparr>title_opt := Some ''B''\<rparr>)
              created_node)) = sync_queue created_node @ [q]
          \<and> map_option status (fst (handle_item demo_server q created_node)) = Some Conflict)"
proof -
  obtain t where g: "getTaskById created_node ''c'' = Some t"
    by (cases "getTaskById created_node ''c''") (simp_all, code_simp)
  have u: "updated_at_opt (no_fields\<lparr>title_opt := Some ''B''\<rparr>) = None"
    by (simp add: no_fields_def)
  from update_without_timestamp_never_wins [OF g u, of demo_client]
  obtain q where q: "sync_queue (snd (updateTask demo_client ''c'' (no_fields\<lparr>title_opt := Some ''B''\<rparr>)
              created_node)) = sync_queue created_node @ [q]"
    and c: "\<forall>e' r lt. getTaskById r ''c'' = Some lt \<longrightarrow>
                 handle_item e' q r =
                   (Some \<lparr>client_id = ''c'', server_id_resp = ''c'', status = Conflict,
                          resolved_data = Some (task_json lt), error = None\<rparr>, r)"
    by blast
  have "map_option status (fst (handle_item demo_server q created_node)) = Some Conflict"
    using c g by simp
  then show ?thesis using g u q by auto
qed

text \<open>
  Claim C10 at a soft-deleted record. The record exists (\<open>getTaskById\<close> finds it), the
  update is applied to the store and an entry of kind \<open>update\<close> is enqueued, and yet
  \<open>updateTask\<close> returns null, which is its answer for a record that is not found: it reads
  the result back with \<open>getTask\<close>, which leaves soft-deleted records out.
\<close>

theorem update_of_deleted_record_returns_null:
  "map id_task (tasks deleted_node) = [''c'']
   \<and> getTaskById deleted_node ''c'' \<noteq> None
   \<and> fst (updateTask demo_client ''c'' (no_fields\<lparr>title_opt := Some ''B''\<rparr>) deleted_node) = None
   \<and> map title (tasks deleted_node) = [''A'']
   \<and> map title (tasks (snd (updateTask demo_client ''c'' (no_fields\<lparr>title_opt := Some ''B''\<rparr>)
        deleted_node))) = [''B'']
   \<and> map operation (sync_queue (snd (updateTask demo_client ''c''
        (no_fields\<lparr>title_opt := Some ''B''\<rparr>) deleted_node))) = [Create, Delete, Update]"
  by code_simp

text \<open>
  Claim C1 at a soft-deleted remote record and a later client timestamp. The resolver
  applies the update and answers \<open>success\<close>, but with no snapshot: \<open>resolved_data\<close> is the
  null that \<open>updateTask\<close> returned.
\<close>

theorem newer_update_of_deleted_record_has_no_snapshot:
  "map id_task (tasks remote_deleted) = [''s'']
   \<and> map updated_at (tasks remote_deleted) = [Valid 5002]
   \<and> map is_deleted (tasks remote_deleted) = [True]
   \<and> map_option status (fst (handle_item demo_server newer_update remote_deleted)) = Some Success
   \<and> map_option resolved_data (fst (handle_item demo_server newer_update remote_deleted))
       = Some None
   \<and> map title (tasks (snd (handle_item demo_server newer_update remote_deleted))) = [''B'']"
  by code_simp

text \<open>
  Claim C2 at the scenario itself, with the default batch size and a server that starts
  empty. Both outcomes carry the record id \<open>c\<close>, and \<open>batch.find\<close> attributes both to the
  first entry of the batch with that record id, the create. After the run the update entry
  is still in the outbox, and the local record has the title of the create.
\<close>

theorem create_then_update_leaves_update_queued:
  "map operation (sync_queue edited_node) = [Create, Update]
   \<and> map task_id (sync_queue edited_node) = [''c'', ''c'']
   \<and> map title (tasks edited_node) = [''B'']
   \<and> (case sync demo_client 50 (server demo_server) (edited_node, empty_node) of
         None \<Rightarrow> False
       | Some (results, s', r') \<Rightarrow>
           success results \<and> synced_items results = 2 \<and> failed_items results = 0
           \<and> map operation (sync_queue s') = [Update]
           \<and> map title (tasks s') = [''A'']
           \<and> map sync_status (tasks s') = [Synced])"
  by code_simp

lemma update_queue_ids: "map id_item (update_queue i n m q) = map id_item q"
  unfolding update_queue_def by (induction q) simp_all

lemma update_queue_member:
  assumes "r \<in> set q"
  shows "r\<lparr>retry_count := n, error_message := Some m\<rparr> \<in> set (update_queue (id_item r) n m q)"
proof -
  let ?f = "\<lambda>x. if id_item x = id_item r then x\<lparr>retry_count := n, error_message := Some m\<rparr> else x"
  have "?f r \<in> ?f ` set q"
    using assms by (rule imageI)
  then show ?thesis
    unfolding update_queue_def set_map by simp
qed

lemma update_queue_rows:
  assumes "r \<in> set (update_queue i n m q)" and "id_item r = i"
  shows "retry_count r = n \<and> error_message r = Some m"
proof -
  obtain x where x: "x \<in> set q"
    and r: "r = (if id_item x = i then x\<lparr>retry_count := n, error_message := Some m\<rparr> else x)"
    using assms(1) unfolding update_queue_def set_map by blast
  show ?thesis
  proof (cases "id_item x = i")
    case True
    then show ?thesis using r by simp
  next
    case False
    then show ?thesis using r assms(2) by simp
  qed
qed

lemma handleSyncError_ids: "map id_item (sync_queue (handleSyncError item m s)) = map id_item (sync_queue s)"
  by (simp add: handleSyncError_def Let_def update_queue_ids)

lemma handleSyncError_queue:
  "sync_queue (handleSyncError item m s) =
     update_queue (id_item item) (retry_count item + 1)
       (if 3 \<le> retry_count item + 1 then permanent_failure m else m) (sync_queue s)"
  by (simp add: handleSyncError_def Let_def)

lemma handleSyncError_tasks:
  "tasks (handleSyncError item m s) =
     (if 3 \<le> retry_count item + 1
      then update_tasks (no_fields\<lparr>sync_status_opt := Some SyncError\<rparr>) (task_id item) (tasks s)
      else tasks s)"
  by (simp add: handleSyncError_def Let_def)

lemma getTaskById_handleSyncError:
  assumes "getTaskById s i = Some t"
  shows "\<exists>t'. getTaskById (handleSyncError item m s) i = Some t'
            \<and> (3 \<le> retry_count item + 1 \<and> task_id item = i \<longrightarrow> sync_status t' = SyncError)"
proof -
  have "id_task t = i"
    using assms find_SomeD [of "\<lambda>t. id_task t = i" "tasks s" t] by (simp add: getTaskById_def)
  then show ?thesis
    using assms
    by (simp add: getTaskById_def handleSyncError_tasks find_update_tasks no_fields_def
        set_columns_def)
qed

lemma handleSyncError_member:
  assumes "r \<in> set (sync_queue s)" and "retry_count r = n"
  shows "r\<lparr>retry_count := n + 1,
            error_message := Some (if 3 \<le> n + 1 then permanent_failure m else m)\<rparr>
         \<in> set (sync_queue (handleSyncError r m s))"
  unfolding handleSyncError_queue assms(2)
  by (rule update_queue_member [OF assms(1)])

lemma handleSyncError_rows:
  assumes "r \<in> set (sync_queue (handleSyncError item m s))" and "id_item r = id_item item"
  shows "retry_count r = retry_count item + 1
       \<and> error_message r = Some (if 3 \<le> retry_count item + 1 then permanent_failure m else m)"
  using assms(1) unfolding handleSyncError_queue
  by (rule update_queue_rows) (rule assms(2))

text \<open>
  The retry handler on its own: applied three times in a row to an entry with
  \<open>retry_count = 0\<close> whose record exists, each time to the entry as the queue then holds
  it, it leaves the entry in the queue with \<open>retry_count = 3\<close> and the message of a
  permanent failure, removes no entry, and sets the record to \<open>sync_status = error\<close>.
\<close>

lemma retry_exhaustion_rows:
  assumes "q \<in> set (sync_queue s)" and "retry_count q = 0"
    and "getTaskById s (task_id q) = Some t"
  shows "let q1 = q\<lparr>retry_count := 1, error_message := Some m1\<rparr>;
             s1 = handleSyncError q m1 s;
             q2 = q\<lparr>retry_count := 2, error_message := Some m2\<rparr>;
             s2 = handleSyncError q1 m2 s1;
             q3 = q\<lparr>retry_count := 3, error_message := Some (permanent_failure m3)\<rparr>;
             s3 = handleSyncError q2 m3 s2
         in q1 \<in> set (sync_queue s1) \<and> q2 \<in> set (sync_queue s2) \<and> q3 \<in> set (sync_queue s3)
            \<and> map id_item (sync_queue s3) = map id_item (sync_queue s)
            \<and> (\<forall>r \<in> set (sync_queue s3). id_item r = id_item q \<longrightarrow>
                  retry_count r = 3 \<and> error_message r = Some (permanent_failure m3))
            \<and> (\<exists>t'. getTaskById s3 (task_id q) = Some t' \<and> sync_status t' = SyncError)"
proof -
  define q1 where "q1 = q\<lparr>retry_count := 1, error_message := Some m1\<rparr>"
  define s1 where "s1 = handleSyncError q m1 s"
  define q2 where "q2 = q\<lparr>retry_count := 2, error_message := Some m2\<rparr>"
  define s2 where "s2 = handleSyncError q1 m2 s1"
  define q3 where "q3 = q\<lparr>retry_count := 3, error_message := Some (permanent_failure m3)\<rparr>"
  define s3 where "s3 = handleSyncError q2 m3 s2"
  have r1: "retry_count q1 = 1" and r2: "retry_count q2 = 2"
    and d2: "id_item q2 = id_item q" and k2: "task_id q2 = task_id q"
    by (simp_all add: q1_def q2_def)
  have e1: "q\<lparr>retry_count := 0 + 1,
              error_message := Some (if 3 \<le> (0::nat) + 1 then permanent_failure m1 else m1)\<rparr> = q1"
    by (simp add: q1_def)
  have e2: "q1\<lparr>retry_count := 1 + 1,
              error_message := Some (if 3 \<le> (1::nat) + 1 then permanent_failure m2 else m2)\<rparr> = q2"
    by (simp add: q1_def q2_def)
  have e3: "q2\<lparr>retry_count := 2 + 1,
              error_message := Some (if 3 \<le> (2::nat) + 1 then permanent_failure m3 else m3)\<rparr> = q3"
    by (simp add: q2_def q3_def)
  have i1: "q1 \<in> set (sync_queue s1)"
    using handleSyncError_member [OF assms(1) assms(2), of m1] unfolding e1 s1_def .
  have i2: "q2 \<in> set (sync_queue s2)"
    using handleSyncError_member [OF i1 r1, of m2] unfolding e2 s2_def .
  have i3: "q3 \<in> set (sync_queue s3)"
    using handleSyncError_member [OF i2 r2, of m3] unfolding e3 s3_def .
  have ids: "map id_item (sync_queue s3) = map id_item (sync_queue s)"
    unfolding s3_def s2_def s1_def by (simp only: handleSyncError_ids)
  have rows: "retry_count r = 3 \<and> error_message r = Some (permanent_failure m3)"
    if "r \<in> set (sync_queue s3)" and "id_item r = id_item q" for r
    using handleSyncError_rows [of r q2 m3 s2] that unfolding s3_def d2 r2 by simp
  obtain t1 where g1: "getTaskById s1 (task_id q) = Some t1"
    using getTaskById_handleSyncError [OF assms(3), of q m1] unfolding s1_def by blast
  obtain t2 where g2: "getTaskById s2 (task_id q) = Some t2"
    using getTaskById_handleSyncError [OF g1, of q1 m2] unfolding s2_def by blast
  have g3: "\<exists>t'. getTaskById s3 (task_id q) = Some t' \<and> sync_status t' = SyncError"
    using getTaskById_handleSyncError [OF g2, of q2 m3] unfolding s3_def r2 k2 by simp
  show ?thesis
    unfolding Let_def q1_def [symmetric] s1_def [symmetric] q2_def [symmetric]
      s2_def [symmetric] q3_def [symmetric] s3_def [symmetric]
    using i1 i2 i3 ids rows g3 by blast
qed

lemma retry_exhaustion:
  assumes "q \<in> set (sync_queue s)" and "retry_count q = 0"
    and "getTaskById s (task_id q) = Some t"
  shows "let q1 = q\<lparr>retry_count := 1, error_message := Some m1\<rparr>;
             s1 = handleSyncError q m1 s;
             q2 = q\<lparr>retry_count := 2, error_message := Some m2\<rparr>;
             s2 = handleSyncError q1 m2 s1;
             q3 = q\<lparr>retry_count := 3, error_message := Some (''Permanent failure: '' @ m3)\<rparr>;
             s3 = handleSyncError q2 m3 s2
         in q1 \<in> set (sync_queue s1) \<and> q2 \<in> set (sync_queue s2) \<and> q3 \<in> set (sync_queue s3)
            \<and> map id_item (sync_queue s3) = map id_item (sync_queue s)
            \<and> (\<forall>r \<in> set (sync_queue s3). id_item r = id_item q \<longrightarrow>
                  retry_count r = 3 \<and> error_message r = Some (''Permanent failure: '' @ m3))
            \<and> (\<exists>t'. getTaskById s3 (task_id q) = Some t' \<and> sync_status t' = SyncError)"
  using retry_exhaustion_rows [OF assms, of m1 m2 m3] unfolding permanent_failure_def .

text \<open>
  Claim C4 in sync runs. The outbox holds two entries of the record \<open>c\<close>, and the remote
  side answers both with \<open>error\<close> in three consecutive runs. \<open>batch.find\<close> attributes both
  outcomes of a run to the first entry, so the retry handler is called twice on the first
  entry and never on the second: after the third run the first entry has
  \<open>retry_count = 3\<close> and the message of a permanent failure, the second entry, which
  failed three times as well, still has \<open>retry_count = 0\<close> and no message.
\<close>

theorem second_entry_of_a_record_is_never_retried:
  "map operation (sync_queue edited_node) = [Create, Update]
   \<and> map task_id (sync_queue edited_node) = [''c'', ''c'']
   \<and> map retry_count (sync_queue edited_node) = [0, 0]
   \<and> (case sync demo_client 50 (answering [error_outcome, error_outcome]) (edited_node, ()) of
         None \<Rightarrow> False
       | Some (results1, s1, r1) \<Rightarrow>
           failed_items results1 = 2 \<and> map retry_count (sync_queue s1) = [1, 0]
           \<and> (case sync demo_client 50 (answering [error_outcome, error_outcome]) (s1, r1) of
                 None \<Rightarrow> False
               | Some (results2, s2, r2) \<Rightarrow>
                   failed_items results2 = 2 \<and> map retry_count (sync_queue s2) = [2, 0]
                   \<and> (case sync demo_client 50 (answering [error_outcome, error_outcome])
                               (s2, r2) of
                         None \<Rightarrow> False
                       | Some (results3, s3, r3) \<Rightarrow>
                           failed_items results3 = 2
                           \<and> map operation (sync_queue s3) = [Create, Update]
                           \<and> map retry_count (sync_queue s3) = [3, 0]
                           \<and> map error_message (sync_queue s3)
                               = [Some ''Permanent failure: boom'', None]
                           \<and> map sync_status (tasks s3) = [SyncError])))"
  by code_simp

text \<open>
  Claim C7 at the same outbox, when the remote side answers the first entry with \<open>error\<close>
  and the second with \<open>success\<close>. Both outcomes carry the record id \<open>c\<close> and are attributed
  to the first entry: the retry handler is called on it for the first outcome, and the
  second outcome deletes it. The entry answered \<open>error\<close> is gone from the outbox, and the
  entry answered \<open>success\<close> is still there.
\<close>

theorem entry_answered_error_is_removed:
  "map operation (sync_queue edited_node) = [Create, Update]
   \<and> map task_id (sync_queue edited_node) = [''c'', ''c'']
   \<and> map status [error_outcome, success_outcome] = [Error, Success]
   \<and> map client_id [error_outcome, success_outcome] = [''c'', ''c'']
   \<and> (case sync demo_client 50 (answering [error_outcome, success_outcome]) (edited_node, ()) of
         None \<Rightarrow> False
       | Some (results, s', r') \<Rightarrow>
           synced_items results = 1 \<and> failed_items results = 1 \<and> \<not> success results
           \<and> map operation (sync_queue s') = [Update]
           \<and> map retry_count (sync_queue s') = [0]
           \<and> map error_message (sync_queue s') = [None])"
  by code_simp

section \<open>SyncService: properties\<close>

lemma build_batches_result:
  assumes "0 < n"
  shows "\<exists>bs. build_batches n i its acc = Some (acc @ bs) \<and> concat bs = drop i its
              \<and> (\<forall>b \<in> set bs. b \<noteq> [])"
proof (induction "length its - i" arbitrary: i acc rule: less_induct)
  case less
  show ?case
  proof (cases "i < length its")
    case False
    then have "build_batches n i its acc = Some acc"
      by (subst build_batches.simps) simp
    then show ?thesis using False by simp
  next
    case True
    let ?b = "take n (drop i its)"
    have "length its - (i + n) < length its - i"
      using True assms by simp
    from less [OF this, of "acc @ [?b]"]
    obtain bs where bs: "build_batches n (i + n) its (acc @ [?b]) = Some ((acc @ [?b]) @ bs)"
      and c: "concat bs = drop (i + n) its" and ne: "\<forall>b \<in> set bs. b \<noteq> []"
      by blast
    have "build_batches n i its acc = Some (acc @ (?b # bs))"
      using True bs by (subst build_batches.simps) simp
    moreover have "concat (?b # bs) = drop i its"
      using c by (simp add: add.commute [of i n] flip: drop_drop)
    moreover have "?b \<noteq> []"
      using True assms by simp
    ultimately show ?thesis
      using ne by (intro exI [of _ "?b # bs"]) simp
  qed
qed

lemma sync_queue_dates [simp]: "sync_queue (snd (new_Date e s)) = sync_queue s"
  by (simp add: new_Date_def)

lemma rows_of_dates: "rows_of i (snd (new_Date e s)) = rows_of i s"
  by (simp add: rows_of_def)

lemma filter_update_queue_other:
  "j \<noteq> i \<Longrightarrow>
   filter (\<lambda>r. id_item r = i) (update_queue j n m q) = filter (\<lambda>r. id_item r = i) q"
  by (induction q) (simp_all add: update_queue_def)

lemma filter_update_queue_same:
  "filter (\<lambda>r. id_item r = i) (update_queue i n m q) =
     map (\<lambda>r. r\<lparr>retry_count := n, error_message := Some m\<rparr>) (filter (\<lambda>r. id_item r = i) q)"
  by (induction q) (simp_all add: update_queue_def)

lemma rows_of_handleSyncError_other:
  "id_item item \<noteq> i \<Longrightarrow> rows_of i (handleSyncError item m s) = rows_of i s"
  by (simp add: rows_of_def handleSyncError_queue filter_update_queue_other)

lemma rows_of_handleSyncError_same:
  "rows_of (id_item item) (handleSyncError item m s) =
     map (\<lambda>r. r\<lparr>retry_count := retry_count item + 1,
                 error_message := Some (if 3 \<le> retry_count item + 1
                                        then permanent_failure m else m)\<rparr>)
       (rows_of (id_item item) s)"
  by (simp only: rows_of_def handleSyncError_queue filter_update_queue_same)

lemma updateSyncStatus_queue:
  "sync_queue (snd (updateSyncStatus e qid st sd s)) = sync_queue s
   \<or> sync_queue (snd (updateSyncStatus e qid st sd s)) =
       filter (\<lambda>r. id_item r \<noteq> qid) (sync_queue s)"
  by (simp add: updateSyncStatus_def new_Date_def Let_def split: option.splits sum.splits)

lemma rows_of_updateSyncStatus_other:
  assumes "qid \<noteq> i"
  shows "rows_of i (snd (updateSyncStatus e qid st sd s)) = rows_of i s"
proof -
  have "filter (\<lambda>r. id_item r = i) (filter (\<lambda>r. id_item r \<noteq> qid) q) =
        filter (\<lambda>r. id_item r = i) q" for q :: "sync_queue_item list"
    using assms by (induction q) simp_all
  then show ?thesis
    using updateSyncStatus_queue [of e qid st sd s] unfolding rows_of_def by metis
qed

lemma ids_updateSyncStatus:
  assumes "i \<in> id_item ` set (sync_queue s)" and "qid \<noteq> i"
  shows "i \<in> id_item ` set (sync_queue (snd (updateSyncStatus e qid st sd s)))"
proof -
  have "i \<in> id_item ` set (filter (\<lambda>r. id_item r \<noteq> qid) (sync_queue s))"
    using assms by auto
  then show ?thesis
    using updateSyncStatus_queue [of e qid st sd s] assms(1) by metis
qed

lemma ids_handleSyncError:
  "id_item ` set (sync_queue (handleSyncError item m s)) = id_item ` set (sync_queue s)"
  using handleSyncError_ids [of item m s] by (metis list.set_map)

text \<open>Invariants of the loops of a sync run, each given what its steps preserve.\<close>

lemma fail_items_invariant:
  assumes h: "\<And>item s. item \<in> set b \<Longrightarrow> P s \<Longrightarrow> P (handleSyncError item m s)"
    and d: "\<And>s. P s \<Longrightarrow> P (snd (new_Date e s))"
  shows "P s \<Longrightarrow> P (snd (fail_items e m b (results, s)))"
  using h
proof (induction b arbitrary: results s)
  case Nil
  then show ?case by simp
next
  case (Cons item rest)
  have 1: "P (snd (new_Date e (handleSyncError item m s)))"
    by (rule d, rule Cons.prems(2), simp, rule Cons.prems(1))
  have 2: "fail_items e m (item # rest) (results, s) =
        fail_items e m rest
          (results\<lparr>errors := errors results @
             [\<lparr>task_id_err = task_id item, operation_err = operation item,
               error_err = m, timestamp = fst (new_Date e (handleSyncError item m s))\<rparr>]\<rparr>,
           snd (new_Date e (handleSyncError item m s)))"
    by (simp add: split_beta Let_def)
  show ?case
    unfolding 2
    by (rule Cons.IH [OF 1], rule Cons.prems(2), simp)
qed

lemma reconcile_step:
  "reconcile e b (p # rest) (results, s) =
     (if status p = Success \<or> status p = Conflict
      then (case find (\<lambda>item. task_id item = client_id p) b of
              None \<Rightarrow> (Some undefined_id, results\<lparr>synced_items := synced_items results + 1\<rparr>, s)
            | Some oi \<Rightarrow>
                (case fst (updateSyncStatus e (id_item oi) Synced (resolved_data p) s) of
                   Inl msg \<Rightarrow>
                     (Some msg, results\<lparr>synced_items := synced_items results + 1\<rparr>,
                      snd (updateSyncStatus e (id_item oi) Synced (resolved_data p) s))
                 | Inr _ \<Rightarrow>
                     reconcile e b rest
                       (results\<lparr>synced_items := synced_items results + 1\<rparr>,
                        snd (updateSyncStatus e (id_item oi) Synced (resolved_data p) s))))
      else (case find (\<lambda>item. task_id item = client_id p) b of
              None \<Rightarrow>
                (Some undefined_retry_count,
                 results\<lparr>failed_items := failed_items results + 1\<rparr>, s)
            | Some oi \<Rightarrow>
                reconcile e b rest
                  (results\<lparr>failed_items := failed_items results + 1,
                     errors := errors results @
                      [\<lparr>task_id_err = client_id p, operation_err = operation oi,
                        error_err = (case error p of
                                       None \<Rightarrow> unknown_error
                                     | Some m \<Rightarrow> if m = [] then unknown_error else m),
                        timestamp = fst (new_Date e (handleSyncError oi
                           (case error p of None \<Rightarrow> [] | Some m \<Rightarrow> m) s))\<rparr>]\<rparr>,
                   snd (new_Date e (handleSyncError oi
                           (case error p of None \<Rightarrow> [] | Some m \<Rightarrow> m) s)))))"
  by (simp add: Let_def split_beta split: option.splits sum.splits prod.splits)

lemma reconcile_invariant:
  assumes h: "\<And>p item s. p \<in> set ps \<Longrightarrow> status p \<noteq> Success \<Longrightarrow> status p \<noteq> Conflict \<Longrightarrow>
             find (\<lambda>it. task_id it = client_id p) b = Some item \<Longrightarrow> P s \<Longrightarrow>
             P (handleSyncError item (case error p of None \<Rightarrow> [] | Some m \<Rightarrow> m) s)"
    and u: "\<And>p item s. p \<in> set ps \<Longrightarrow> status p = Success \<or> status p = Conflict \<Longrightarrow>
             find (\<lambda>it. task_id it = client_id p) b = Some item \<Longrightarrow> P s \<Longrightarrow>
             P (snd (updateSyncStatus e (id_item item) Synced (resolved_data p) s))"
    and d: "\<And>s. P s \<Longrightarrow> P (snd (new_Date e s))"
  shows "P s \<Longrightarrow> P (snd (snd (reconcile e b ps (results, s))))"
  using h u
proof (induction ps arbitrary: results s)
  case Nil
  then show ?case by simp
next
  case (Cons p rest)
  have IH: "P s1 \<Longrightarrow> P (snd (snd (reconcile e b rest (results1, s1))))" for results1 s1
    by (rule Cons.IH, assumption, rule Cons.prems(2) [OF list.set_intros(2)], assumption+,
        rule Cons.prems(3) [OF list.set_intros(2)], assumption+)
  have p: "p \<in> set (p # rest)" by simp
  show ?case
  proof (cases "find (\<lambda>it. task_id it = client_id p) b")
    case None
    then show ?thesis
      using Cons.prems(1) by (simp add: reconcile_step del: reconcile.simps)
  next
    case (Some item)
    show ?thesis
    proof (cases "status p = Success \<or> status p = Conflict")
      case True
      let ?r = "updateSyncStatus e (id_item item) Synced (resolved_data p) s"
      have 1: "P (snd ?r)"
        by (rule Cons.prems(3) [OF p True Some Cons.prems(1)])
      show ?thesis
      proof (cases "fst ?r")
        case (Inl msg)
        then show ?thesis
          using True Some 1 by (simp add: reconcile_step del: reconcile.simps)
      next
        case (Inr x)
        then show ?thesis
          using True Some IH [OF 1] by (simp add: reconcile_step del: reconcile.simps)
      qed
    next
      case False
      let ?s1 = "handleSyncError item (case error p of None \<Rightarrow> [] | Some m \<Rightarrow> m) s"
      have "P ?s1"
        using False by (intro Cons.prems(2) [OF p _ _ Some Cons.prems(1)]) simp_all
      then have "P (snd (new_Date e ?s1))"
        by (rule d)
      from IH [OF this] show ?thesis
        using False Some by (simp add: reconcile_step del: reconcile.simps)
    qed
  qed
qed

lemma try_batch_invariant:
  assumes h: "\<And>item m s. item \<in> set b \<Longrightarrow> P s \<Longrightarrow> P (handleSyncError item m s)"
    and u: "\<And>ps p item s. response = Inr ps \<Longrightarrow> p \<in> set ps \<Longrightarrow>
             status p = Success \<or> status p = Conflict \<Longrightarrow>
             find (\<lambda>it. task_id it = client_id p) b = Some item \<Longrightarrow> P s \<Longrightarrow>
             P (snd (updateSyncStatus e (id_item item) Synced (resolved_data p) s))"
    and d: "\<And>s. P s \<Longrightarrow> P (snd (new_Date e s))"
    and s: "P s"
  shows "P (snd (try_batch e b response (results, s)))"
proof (cases response)
  case (Inl message)
  have "P (snd (fail_items e message b
          (results\<lparr>success := False, failed_items := failed_items results + length b\<rparr>, s)))"
    by (rule fail_items_invariant [where P = P, OF h d s])
  then show ?thesis
    using Inl by (simp add: try_batch_def catch_batch_def)
next
  case (Inr ps)
  have hb: "P (handleSyncError item m s)"
    if "find (\<lambda>it. task_id it = client_id p) b = Some item" and "P s" for p item m s
    using find_SomeD [OF that(1)] that(2) h by blast
  have 1: "P (snd (snd (reconcile e b ps (results, s))))"
    by (rule reconcile_invariant [where P = P, OF hb u [OF Inr] d s])
  obtain x results1 s1 where r: "reconcile e b ps (results, s) = (x, results1, s1)"
    by (cases "reconcile e b ps (results, s)")
  have s1: "P s1" using 1 r by simp
  show ?thesis
  proof (cases x)
    case None
    then show ?thesis using Inr r s1 by (simp add: try_batch_def)
  next
    case (Some message)
    have "P (snd (fail_items e message b
          (results1\<lparr>success := False, failed_items := failed_items results1 + length b\<rparr>, s1)))"
      by (rule fail_items_invariant [where P = P, OF h d s1])
    then show ?thesis
      using Inr r Some by (simp add: try_batch_def catch_batch_def)
  qed
qed

lemma processBatch_recording:
  "\<exists>request response r1.
     items request = b
     \<and> processBatch e (recording tr) b (s, (r, log)) =
         (response, snd (new_Date e s), (r1, log @ [(request, response)]))"
  by (simp add: processBatch_def recording_def split_beta Let_def)

lemma sync_batch_eq:
  "sync_batch e tr b (results, s, r) =
     (fst (try_batch e b (fst (processBatch e tr b (s, r)))
             (results, fst (snd (processBatch e tr b (s, r))))),
      snd (try_batch e b (fst (processBatch e tr b (s, r)))
             (results, fst (snd (processBatch e tr b (s, r))))),
      snd (snd (processBatch e tr b (s, r))))"
  by (simp add: sync_batch_def split_beta)

lemma processBatch_node: "fst (snd (processBatch e tr b (s, r))) = snd (new_Date e s)"
  by (simp add: processBatch_def split_beta Let_def)

lemma sync_batch_recording:
  "\<exists>request response r1.
     items request = b
     \<and> sync_batch e (recording tr) b (results, s, (r, log)) =
         (fst (try_batch e b response (results, snd (new_Date e s))),
          snd (try_batch e b response (results, snd (new_Date e s))),
          (r1, log @ [(request, response)]))"
proof -
  obtain request response r1 where i: "items request = b"
    and p: "processBatch e (recording tr) b (s, (r, log)) =
         (response, snd (new_Date e s), (r1, log @ [(request, response)]))"
    using processBatch_recording [of b e tr s r log] by blast
  show ?thesis
    using i by (intro exI [of _ request] exI [of _ response] exI [of _ r1])
      (simp add: sync_batch_eq p)
qed

lemma fold_log:
  "\<exists>results' s' r' new.
     fold (sync_batch e (recording tr)) bs (results, s, (r, log)) = (results', s', (r', log @ new))
     \<and> map (\<lambda>x. items (fst x)) new = bs"
proof (induction bs arbitrary: results s r log)
  case Nil
  show ?case by simp
next
  case (Cons b bs)
  obtain request response r1 where i: "items request = b"
    and 1: "sync_batch e (recording tr) b (results, s, (r, log)) =
         (fst (try_batch e b response (results, snd (new_Date e s))),
          snd (try_batch e b response (results, snd (new_Date e s))),
          (r1, log @ [(request, response)]))"
    using sync_batch_recording [of b e tr results s r log] by blast
  obtain results' s' r' new where
    2: "fold (sync_batch e (recording tr)) bs
          (fst (try_batch e b response (results, snd (new_Date e s))),
           snd (try_batch e b response (results, snd (new_Date e s))),
           (r1, log @ [(request, response)])) = (results', s', (r', (log @ [(request, response)]) @ new))"
    and 3: "map (\<lambda>x. items (fst x)) new = bs"
    using Cons.IH by blast
  show ?case
    using i 1 2 3
    by (intro exI [of _ results'] exI [of _ s'] exI [of _ r'] exI [of _ "(request, response) # new"])
       simp
qed

lemma sync_batch_node:
  "fst (snd (sync_batch e tr b (results, s, r))) =
     snd (try_batch e b (fst (processBatch e tr b (s, r))) (results, snd (new_Date e s)))"
  by (simp add: sync_batch_eq processBatch_node)

lemma try_batch_frame:
  assumes "\<forall>item \<in> set b. id_item item \<noteq> i"
  shows "rows_of i (snd (try_batch e b response (results, s))) = rows_of i s"
proof (rule try_batch_invariant [where P = "\<lambda>s'. rows_of i s' = rows_of i s"])
  show "rows_of i (handleSyncError item m s') = rows_of i s"
    if "item \<in> set b" and "rows_of i s' = rows_of i s" for item m s'
    using that assms by (simp add: rows_of_handleSyncError_other)
  show "rows_of i (snd (updateSyncStatus e (id_item item) Synced (resolved_data p) s')) = rows_of i s"
    if "find (\<lambda>it. task_id it = client_id p) b = Some item" and "rows_of i s' = rows_of i s"
    for p item s'
    using find_SomeD [OF that(1)] that(2) assms by (simp add: rows_of_updateSyncStatus_other)
  show "rows_of i (snd (new_Date e s')) = rows_of i s" if "rows_of i s' = rows_of i s" for s'
    using that by (simp add: rows_of_dates)
  show "rows_of i s = rows_of i s" ..
qed

lemma fold_frame:
  assumes "\<forall>item \<in> set (concat bs). id_item item \<noteq> i"
  shows "rows_of i (fst (snd (fold (sync_batch e tr) bs (results, s, r)))) = rows_of i s"
  using assms
proof (induction bs arbitrary: results s r)
  case Nil
  show ?case by simp
next
  case (Cons b bs)
  obtain results1 s1 r1 where 1: "sync_batch e tr b (results, s, r) = (results1, s1, r1)"
    by (cases "sync_batch e tr b (results, s, r)")
  have "rows_of i s1 = rows_of i (snd (new_Date e s))"
    using sync_batch_node [of e tr b results s r] 1 Cons.prems
    by (simp add: try_batch_frame)
  moreover have "rows_of i (fst (snd (fold (sync_batch e tr) bs (results1, s1, r1)))) = rows_of i s1"
    using Cons.IH Cons.prems by simp
  ultimately show ?case
    using 1 by (simp add: rows_of_dates)
qed

lemma fail_items_frame:
  assumes "\<forall>item \<in> set b. id_item item \<noteq> i"
  shows "rows_of i (snd (fail_items e m b (results, s))) = rows_of i s"
proof (rule fail_items_invariant [where P = "\<lambda>s'. rows_of i s' = rows_of i s"])
  show "rows_of i (handleSyncError item m s') = rows_of i s"
    if "item \<in> set b" and "rows_of i s' = rows_of i s" for item s'
    using that assms by (simp add: rows_of_handleSyncError_other)
  show "rows_of i (snd (new_Date e s')) = rows_of i s" if "rows_of i s' = rows_of i s" for s'
    using that by (simp add: rows_of_dates)
  show "rows_of i s = rows_of i s" ..
qed

text \<open>What the retry handler writes into the row of a failed entry.\<close>

lemma fail_items_rows:
  assumes "q \<in> set b" and "distinct (map id_item b)"
  shows "rows_of (id_item q) (snd (fail_items e m b (results, s))) =
           map (\<lambda>x. x\<lparr>retry_count := retry_count q + 1,
                       error_message := Some (if 3 \<le> retry_count q + 1
                                              then permanent_failure m else m)\<rparr>)
             (rows_of (id_item q) s)"
  using assms
proof (induction b arbitrary: results s)
  case Nil
  then show ?case by simp
next
  case (Cons item rest)
  let ?s1 = "snd (new_Date e (handleSyncError item m s))"
  have step: "snd (fail_items e m (item # rest) (results, s)) =
              snd (fail_items e m rest
                (results\<lparr>errors := errors results @
                   [\<lparr>task_id_err = task_id item, operation_err = operation item,
                     error_err = m, timestamp = fst (new_Date e (handleSyncError item m s))\<rparr>]\<rparr>,
                 ?s1))"
    by (simp add: split_beta Let_def)
  show ?case
  proof (cases "item = q")
    case True
    have "id_item q \<notin> id_item ` set rest"
      using Cons.prems(2) True by simp
    then have "\<forall>x \<in> set rest. id_item x \<noteq> id_item q"
      by (metis imageI)
    then show ?thesis
      unfolding step using True
      by (simp add: fail_items_frame rows_of_dates rows_of_handleSyncError_same)
  next
    case False
    then have q: "q \<in> set rest" using Cons.prems(1) by simp
    then have "id_item item \<noteq> id_item q"
      using Cons.prems(2) by (metis distinct.simps(2) imageI list.simps(9) list.set_map)
    then have "rows_of (id_item q) ?s1 = rows_of (id_item q) s"
      by (simp add: rows_of_dates rows_of_handleSyncError_other)
    then show ?thesis
      unfolding step using Cons.IH [OF q] Cons.prems(2) by simp
  qed
qed

lemma try_batch_failure_rows:
  assumes "q \<in> set b" and "distinct (map id_item b)"
  shows "rows_of (id_item q) (snd (try_batch e b (Inl m) (results, s))) =
           map (\<lambda>x. x\<lparr>retry_count := retry_count q + 1,
                       error_message := Some (if 3 \<le> retry_count q + 1
                                              then permanent_failure m else m)\<rparr>)
             (rows_of (id_item q) s)"
  using fail_items_rows [OF assms] by (simp add: try_batch_def catch_batch_def)

text \<open>The counter of failed items never decreases, and a failed batch adds its length.\<close>

lemma fail_items_failed:
  "failed_items (fst (fail_items e m b (results, s))) = failed_items results"
  by (induction b arbitrary: results s) (simp_all add: split_beta Let_def)

lemma reconcile_failed:
  "failed_items results \<le> failed_items (fst (snd (reconcile e b ps (results, s))))"
proof (induction ps arbitrary: results s)
  case Nil
  show ?case by simp
next
  case (Cons p rest)
  have 1: "failed_items results \<le> failed_items (fst (snd (reconcile e b rest (results1, s1))))"
    if "failed_items results \<le> failed_items results1" for results1 s1
    using Cons.IH [of results1 s1] that by simp
  show ?case
    unfolding reconcile_step
    by (simp add: 1 split: option.splits sum.splits)
qed

lemma try_batch_failed:
  "failed_items results \<le> failed_items (fst (try_batch e b response (results, s)))"
proof (cases response)
  case (Inl m)
  then show ?thesis
    by (simp add: try_batch_def catch_batch_def fail_items_failed)
next
  case (Inr ps)
  obtain x results1 s1 where r: "reconcile e b ps (results, s) = (x, results1, s1)"
    by (cases "reconcile e b ps (results, s)")
  have "failed_items results \<le> failed_items results1"
    using reconcile_failed [of results e b ps s] r by simp
  then show ?thesis
    using Inr r by (cases x) (simp_all add: try_batch_def catch_batch_def fail_items_failed)
qed

lemma try_batch_failure_failed:
  "failed_items (fst (try_batch e b (Inl m) (results, s))) = failed_items results + length b"
  by (simp add: try_batch_def catch_batch_def fail_items_failed)

lemma sync_batch_failed:
  "failed_items results \<le> failed_items (fst (sync_batch e tr b (results, s, r)))"
  by (simp add: sync_batch_eq try_batch_failed)

lemma fold_failed:
  "failed_items results \<le> failed_items (fst (fold (sync_batch e tr) bs (results, s, r)))"
proof (induction bs arbitrary: results s r)
  case Nil
  show ?case by simp
next
  case (Cons b bs)
  obtain results1 s1 r1 where 1: "sync_batch e tr b (results, s, r) = (results1, s1, r1)"
    by (cases "sync_batch e tr b (results, s, r)")
  have "failed_items results \<le> failed_items results1"
    using sync_batch_failed [of results e tr b s r] 1 by simp
  also have "\<dots> \<le> failed_items (fst (fold (sync_batch e tr) bs (results1, s1, r1)))"
    by (rule Cons.IH)
  finally show ?case using 1 by simp
qed

text \<open>An entry leaves the outbox only through an outcome \<open>success\<close> or \<open>conflict\<close>.\<close>

lemma try_batch_deletion:
  assumes "i \<in> id_item ` set (sync_queue s)"
    and "i \<notin> id_item ` set (sync_queue (snd (try_batch e b response (results, s))))"
  shows "\<exists>ps p item. response = Inr ps \<and> p \<in> set ps
           \<and> (status p = Success \<or> status p = Conflict)
           \<and> find (\<lambda>it. task_id it = client_id p) b = Some item \<and> id_item item = i"
proof (rule ccontr)
  assume n: "\<nexists>ps p item. response = Inr ps \<and> p \<in> set ps
           \<and> (status p = Success \<or> status p = Conflict)
           \<and> find (\<lambda>it. task_id it = client_id p) b = Some item \<and> id_item item = i"
  have "i \<in> id_item ` set (sync_queue (snd (try_batch e b response (results, s))))"
  proof (rule try_batch_invariant [where P = "\<lambda>s'. i \<in> id_item ` set (sync_queue s')"])
    show "i \<in> id_item ` set (sync_queue (handleSyncError item m s'))"
      if "i \<in> id_item ` set (sync_queue s')" for item m s'
      using that by (simp only: ids_handleSyncError)
    show "i \<in> id_item ` set (sync_queue
            (snd (updateSyncStatus e (id_item item) Synced (resolved_data p) s')))"
      if "response = Inr ps" and "p \<in> set ps" and "status p = Success \<or> status p = Conflict"
        and "find (\<lambda>it. task_id it = client_id p) b = Some item"
        and "i \<in> id_item ` set (sync_queue s')" for ps p item s'
    proof -
      have "id_item item \<noteq> i" using n that(1-4) by blast
      then show ?thesis using that(5) by (rule ids_updateSyncStatus [rotated])
    qed
    show "i \<in> id_item ` set (sync_queue (snd (new_Date e s')))"
      if "i \<in> id_item ` set (sync_queue s')" for s'
      using that by simp
    show "i \<in> id_item ` set (sync_queue s)" by (rule assms(1))
  qed
  then show False using assms(2) by simp
qed

lemma sync_as_fold:
  assumes "0 < n"
  shows "\<exists>bs resF s' r'.
           build_batches n 0 (getSyncQueueItems s) [] = Some bs
           \<and> concat bs = getSyncQueueItems s
           \<and> fold (sync_batch e tr) bs
               (\<lparr>success = True, synced_items = 0, failed_items = 0, errors = []\<rparr>, s, r)
               = (resF, s', r')
           \<and> sync e n tr (s, r) = Some (resF\<lparr>success := (failed_items resF = 0)\<rparr>, s', r')"
proof -
  let ?init = "\<lparr>success = True, synced_items = 0, failed_items = 0, errors = []\<rparr>"
  obtain bs where b: "build_batches n 0 (getSyncQueueItems s) [] = Some bs"
    and c: "concat bs = getSyncQueueItems s"
    using build_batches_result [OF assms, of 0 "getSyncQueueItems s" "[]"] by auto
  obtain resF s' r' where f: "fold (sync_batch e tr) bs (?init, s, r) = (resF, s', r')"
    by (cases "fold (sync_batch e tr) bs (?init, s, r)")
  show ?thesis
  proof (cases "getSyncQueueItems s = []")
    case True
    then have "build_batches n 0 (getSyncQueueItems s) [] = Some []"
      by (subst build_batches.simps) simp
    then have "bs = []" using b by simp
    then have "resF = ?init" and "s' = s" and "r' = r" using f by simp_all
    then show ?thesis
      using True b c f by (simp add: sync_def)
  next
    case False
    then show ?thesis
      using b c f by (simp add: sync_def)
  qed
qed

lemma fold_deletion:
  assumes "fold (sync_batch e (recording tr)) bs (results, s, (r, log)) = (results', s', (r', log'))"
    and "i \<in> id_item ` set (sync_queue s)" and "i \<notin> id_item ` set (sync_queue s')"
  shows "\<exists>request ps p item. (request, Inr ps) \<in> set log' \<and> p \<in> set ps
           \<and> (status p = Success \<or> status p = Conflict)
           \<and> find (\<lambda>it. task_id it = client_id p) (items request) = Some item
           \<and> id_item item = i"
  using assms
proof (induction bs arbitrary: results s r log)
  case Nil
  then show ?case by simp
next
  case (Cons b bs)
  let ?s0 = "snd (new_Date e s)"
  obtain request response r1 where i: "items request = b"
    and 1: "sync_batch e (recording tr) b (results, s, (r, log)) =
         (fst (try_batch e b response (results, ?s0)), snd (try_batch e b response (results, ?s0)),
          (r1, log @ [(request, response)]))"
    using sync_batch_recording [of b e tr results s r log] by blast
  let ?res1 = "fst (try_batch e b response (results, ?s0))"
  let ?s1 = "snd (try_batch e b response (results, ?s0))"
  let ?log1 = "log @ [(request, response)]"
  have f: "fold (sync_batch e (recording tr)) bs (?res1, ?s1, (r1, ?log1)) = (results', s', (r', log'))"
    using Cons.prems(1) 1 by simp
  show ?case
  proof (cases "i \<in> id_item ` set (sync_queue ?s1)")
    case True
    show ?thesis by (rule Cons.IH [OF f True Cons.prems(3)])
  next
    case False
    have "i \<in> id_item ` set (sync_queue ?s0)"
      using Cons.prems(2) by simp
    from try_batch_deletion [OF this False]
    obtain ps p item where "response = Inr ps" and "p \<in> set ps"
      and "status p = Success \<or> status p = Conflict"
      and "find (\<lambda>it. task_id it = client_id p) b = Some item" and "id_item item = i"
      by blast
    moreover have "(request, response) \<in> set log'"
    proof -
      obtain results'' s'' r'' new where
        "fold (sync_batch e (recording tr)) bs (?res1, ?s1, (r1, ?log1)) = (results'', s'', (r'', ?log1 @ new))"
        using fold_log [of e tr bs ?res1 ?s1 r1 ?log1] by blast
      then have "log' = ?log1 @ new" using f by simp
      then show ?thesis by simp
    qed
    ultimately show ?thesis using i by blast
  qed
qed

lemma fold_transport_failure:
  assumes "fold (sync_batch e (recording tr)) bs (results, s, (r, log)) = (results', s', (r', log @ new))"
    and "distinct (map id_item (concat bs))"
    and "(request, Inl message) \<in> set new" and "q \<in> set (items request)"
  shows "rows_of (id_item q) s' =
           map (\<lambda>x. x\<lparr>retry_count := retry_count q + 1,
                       error_message := Some (if 3 \<le> retry_count q + 1
                                              then permanent_failure message else message)\<rparr>)
             (rows_of (id_item q) s)
         \<and> q \<in> set (concat bs)
         \<and> failed_items results + length (items request) \<le> failed_items results'"
  using assms
proof (induction bs arbitrary: results s r log new)
  case Nil
  then show ?case by simp
next
  case (Cons b bs)
  let ?s0 = "snd (new_Date e s)"
  let ?upd = "\<lambda>x. x\<lparr>retry_count := retry_count q + 1,
                       error_message := Some (if 3 \<le> retry_count q + 1
                                              then permanent_failure message else message)\<rparr>"
  obtain request0 response0 r1 where i: "items request0 = b"
    and 1: "sync_batch e (recording tr) b (results, s, (r, log)) =
         (fst (try_batch e b response0 (results, ?s0)), snd (try_batch e b response0 (results, ?s0)),
          (r1, log @ [(request0, response0)]))"
    using sync_batch_recording [of b e tr results s r log] by blast
  let ?res1 = "fst (try_batch e b response0 (results, ?s0))"
  let ?s1 = "snd (try_batch e b response0 (results, ?s0))"
  let ?log1 = "log @ [(request0, response0)]"
  obtain results'' s'' r'' new' where
    2: "fold (sync_batch e (recording tr)) bs (?res1, ?s1, (r1, ?log1)) = (results'', s'', (r'', ?log1 @ new'))"
    and 3: "map (\<lambda>x. items (fst x)) new' = bs"
    using fold_log [of e tr bs ?res1 ?s1 r1 ?log1] by blast
  have f: "fold (sync_batch e (recording tr)) bs (?res1, ?s1, (r1, ?log1)) = (results', s', (r', log @ new))"
    using Cons.prems(1) 1 by simp
  have new: "new = (request0, response0) # new'" and eq: "results'' = results'" "s'' = s'"
    using 2 f by simp_all
  have f': "fold (sync_batch e (recording tr)) bs (?res1, ?s1, (r1, ?log1)) = (results', s', (r', ?log1 @ new'))"
    using 2 eq f by simp
  have db: "distinct (map id_item b)" and dbs: "distinct (map id_item (concat bs))"
    and disj: "id_item ` set b \<inter> id_item ` set (concat bs) = {}"
    using Cons.prems(2) by auto
  show ?case
  proof (cases "(request, Inl message) = (request0, response0)")
    case True
    then have qb: "q \<in> set b" and r0: "response0 = Inl message" and ib: "items request = b"
      using Cons.prems(4) i by auto
    have "\<forall>item \<in> set (concat bs). id_item item \<noteq> id_item q"
      using disj qb by (metis IntI empty_iff imageI)
    then have "rows_of (id_item q) (fst (snd (fold (sync_batch e (recording tr)) bs (?res1, ?s1, (r1, ?log1)))))
               = rows_of (id_item q) ?s1"
      by (rule fold_frame)
    then have a: "rows_of (id_item q) s' = rows_of (id_item q) ?s1"
      using f by simp
    have b: "rows_of (id_item q) ?s1 = map ?upd (rows_of (id_item q) s)"
      unfolding r0 using try_batch_failure_rows [OF qb db, of e message results ?s0]
      by (simp add: rows_of_dates)
    have "failed_items ?res1 \<le> failed_items (fst (fold (sync_batch e (recording tr)) bs (?res1, ?s1, (r1, ?log1))))"
      by (rule fold_failed)
    then have c: "failed_items results + length b \<le> failed_items results'"
      using f r0 by (simp add: try_batch_failure_failed)
    show ?thesis
      using a b c qb ib by simp
  next
    case False
    then have m: "(request, Inl message) \<in> set new'"
      using Cons.prems(3) new by auto
    from Cons.IH [OF f' dbs m Cons.prems(4)]
    have a: "rows_of (id_item q) s' = map ?upd (rows_of (id_item q) ?s1)"
      and qbs: "q \<in> set (concat bs)"
      and c: "failed_items ?res1 + length (items request) \<le> failed_items results'"
      by simp_all
    have "\<forall>item \<in> set b. id_item item \<noteq> id_item q"
      using disj qbs by (metis IntI empty_iff imageI)
    then have "rows_of (id_item q) ?s1 = rows_of (id_item q) ?s0"
      by (rule try_batch_frame)
    then have b: "rows_of (id_item q) ?s1 = rows_of (id_item q) s"
      by (simp add: rows_of_dates)
    have "failed_items results \<le> failed_items ?res1"
      by (rule try_batch_failed)
    then show ?thesis
      using a b c qbs by simp
  qed
qed

lemma filter_distinct_key:
  "distinct (map f xs) \<Longrightarrow> x \<in> set xs \<Longrightarrow> filter (\<lambda>y. f y = f x) xs = [x]"
proof (induction xs)
  case Nil
  then show ?case by simp
next
  case (Cons a xs)
  show ?case
  proof (cases "a = x")
    case True
    have "f x \<notin> f ` set xs" using Cons.prems(1) True by simp
    then have "filter (\<lambda>y. f y = f x) xs = []"
      by (metis (mono_tags, lifting) filter_False imageI)
    then show ?thesis using True by simp
  next
    case False
    then have x: "x \<in> set xs" using Cons.prems(2) by simp
    then have "f a \<noteq> f x" using Cons.prems(1) by (metis distinct.simps(2) imageI list.simps(9) list.set_map)
    then show ?thesis using Cons.IH x Cons.prems(1) by simp
  qed
qed

lemma sync_recording:
  assumes "0 < n"
  shows "\<exists>resF s' r' log.
           build_batches n 0 (getSyncQueueItems s) [] = Some (map (\<lambda>x. items (fst x)) log)
           \<and> concat (map (\<lambda>x. items (fst x)) log) = getSyncQueueItems s
           \<and> fold (sync_batch e (recording tr)) (map (\<lambda>x. items (fst x)) log)
               (\<lparr>success = True, synced_items = 0, failed_items = 0, errors = []\<rparr>, s, (r, []))
               = (resF, s', (r', [] @ log))
           \<and> sync e n (recording tr) (s, (r, [])) =
               Some (resF\<lparr>success := (failed_items resF = 0)\<rparr>, s', (r', log))"
proof -
  let ?init = "\<lparr>success = True, synced_items = 0, failed_items = 0, errors = []\<rparr>"
  obtain bs resF s' rl where b: "build_batches n 0 (getSyncQueueItems s) [] = Some bs"
    and c: "concat bs = getSyncQueueItems s"
    and f: "fold (sync_batch e (recording tr)) bs (?init, s, (r, [])) = (resF, s', rl)"
    and y: "sync e n (recording tr) (s, (r, [])) = Some (resF\<lparr>success := (failed_items resF = 0)\<rparr>, s', rl)"
    using sync_as_fold [OF assms, of s e "recording tr" "(r, [])"] by blast
  obtain results'' s'' r' log where
    l: "fold (sync_batch e (recording tr)) bs (?init, s, (r, [])) = (results'', s'', (r', [] @ log))"
    and m: "map (\<lambda>x. items (fst x)) log = bs"
    using fold_log [of e tr bs ?init s r "[]"] by blast
  have "rl = (r', log)" using f l by simp
  then show ?thesis
    using b c f y m by (intro exI [of _ resF] exI [of _ s'] exI [of _ r'] exI [of _ log]) simp
qed

text \<open>
  Claim C6. A sync run with a positive batch size returns, and what it transmits, as the
  remote side records it, is the list of batches of the outbox sorted by \<open>created_at\<close>
  ascending, one request per batch, in order: concatenated, the requests are all the
  entries of the outbox, sorted. So of two entries of the same record, the one created
  earlier is transmitted at an earlier position, and never the other way round.
\<close>

theorem sync_transmits_in_creation_order:
  assumes "0 < batchSize"
  shows "\<exists>results s' r' log.
      sync e batchSize (recording tr) (s, (r, [])) = Some (results, s', (r', log))
    \<and> build_batches batchSize 0 (getSyncQueueItems s) [] = Some (map (\<lambda>x. items (fst x)) log)
    \<and> concat (map (\<lambda>x. items (fst x)) log) = getSyncQueueItems s
    \<and> mset (getSyncQueueItems s) = mset (sync_queue s)
    \<and> sorted (map created_at_item (getSyncQueueItems s))
    \<and> (\<forall>i j. i < length (concat (map (\<lambda>x. items (fst x)) log))
             \<and> j < length (concat (map (\<lambda>x. items (fst x)) log))
             \<and> task_id (concat (map (\<lambda>x. items (fst x)) log) ! i)
                 = task_id (concat (map (\<lambda>x. items (fst x)) log) ! j)
             \<and> created_at_item (concat (map (\<lambda>x. items (fst x)) log) ! i)
                 < created_at_item (concat (map (\<lambda>x. items (fst x)) log) ! j)
             \<longrightarrow> i < j)
    \<and> (\<forall>q1 \<in> set (sync_queue s). \<forall>q2 \<in> set (sync_queue s).
          task_id q1 = task_id q2 \<and> created_at_item q1 < created_at_item q2 \<longrightarrow>
          (\<exists>i j. i < j \<and> j < length (concat (map (\<lambda>x. items (fst x)) log))
                 \<and> concat (map (\<lambda>x. items (fst x)) log) ! i = q1
                 \<and> concat (map (\<lambda>x. items (fst x)) log) ! j = q2))"
proof -
  obtain resF s' r' log where
    b: "build_batches batchSize 0 (getSyncQueueItems s) [] = Some (map (\<lambda>x. items (fst x)) log)"
    and c: "concat (map (\<lambda>x. items (fst x)) log) = getSyncQueueItems s"
    and y: "sync e batchSize (recording tr) (s, (r, [])) =
               Some (resF\<lparr>success := (failed_items resF = 0)\<rparr>, s', (r', log))"
    using sync_recording [OF assms, of s e tr r] by blast
  let ?L = "getSyncQueueItems s"
  have so: "sorted (map created_at_item ?L)"
    by (simp add: getSyncQueueItems_def)
  have ms: "mset ?L = mset (sync_queue s)"
    by (simp add: getSyncQueueItems_def)
  have ord: "i < j"
    if "i < length ?L" and "j < length ?L" and "created_at_item (?L ! i) < created_at_item (?L ! j)"
    for i j
  proof (rule ccontr)
    assume "\<not> i < j"
    then have "j \<le> i" by simp
    then have "map created_at_item ?L ! j \<le> map created_at_item ?L ! i"
      using so that(1) by (simp add: sorted_iff_nth_mono del: nth_map)
    then show False using that by simp
  qed
  have ex: "\<exists>i j. i < j \<and> j < length ?L \<and> ?L ! i = q1 \<and> ?L ! j = q2"
    if "q1 \<in> set (sync_queue s)" and "q2 \<in> set (sync_queue s)"
      and "created_at_item q1 < created_at_item q2" for q1 q2
  proof -
    have "q1 \<in> set ?L" and "q2 \<in> set ?L"
      using that(1,2) by (simp_all add: getSyncQueueItems_def)
    then obtain i j where i: "i < length ?L" "?L ! i = q1" and j: "j < length ?L" "?L ! j = q2"
      by (metis in_set_conv_nth)
    then have "i < j" using ord [of i j] that(3) by simp
    then show ?thesis using i j by blast
  qed
  show ?thesis
    unfolding c using y b c so ms ord ex
    by (intro exI [of _ "resF\<lparr>success := (failed_items resF = 0)\<rparr>"] exI [of _ s']
        exI [of _ r'] exI [of _ log]) (simp only: c, blast)
qed

text \<open>
  Claim C5. In a sync run over an outbox with distinct entry ids, whenever the transport
  fails on a request (the remote side recorded the request with a failure), every entry
  \<open>q\<close> of that batch is still in the outbox afterwards, as the single row with its id, with
  \<open>retry_count\<close> incremented by one and the message the retry handler wrote; the run was
  not aborted, since every batch of the sorted outbox was transmitted; and the result has
  \<open>success = false\<close>, with at least the entries of the batch counted as failed.
\<close>

theorem transport_failure_fails_the_batch:
  assumes "0 < batchSize" and "distinct (map id_item (sync_queue s))"
    and "sync e batchSize (recording tr) (s, (r, [])) = Some (results, s', (r', log))"
    and "(request, Inl message) \<in> set log" and "q \<in> set (items request)"
  shows "q \<in> set (sync_queue s)
       \<and> rows_of (id_item q) s' =
           [q\<lparr>retry_count := retry_count q + 1,
              error_message := Some (if 3 \<le> retry_count q + 1
                                     then permanent_failure message else message)\<rparr>]
       \<and> build_batches batchSize 0 (getSyncQueueItems s) [] = Some (map (\<lambda>x. items (fst x)) log)
       \<and> concat (map (\<lambda>x. items (fst x)) log) = getSyncQueueItems s
       \<and> length (items request) \<le> failed_items results
       \<and> \<not> success results"
proof -
  let ?init = "\<lparr>success = True, synced_items = 0, failed_items = 0, errors = []\<rparr>"
  obtain resF s'' r'' log' where
    b: "build_batches batchSize 0 (getSyncQueueItems s) [] = Some (map (\<lambda>x. items (fst x)) log')"
    and c: "concat (map (\<lambda>x. items (fst x)) log') = getSyncQueueItems s"
    and f: "fold (sync_batch e (recording tr)) (map (\<lambda>x. items (fst x)) log') (?init, s, (r, []))
               = (resF, s'', (r'', [] @ log'))"
    and y: "sync e batchSize (recording tr) (s, (r, [])) =
               Some (resF\<lparr>success := (failed_items resF = 0)\<rparr>, s'', (r'', log'))"
    using sync_recording [OF assms(1), of s e tr r] by blast
  have eq: "results = resF\<lparr>success := (failed_items resF = 0)\<rparr>" "s'' = s'" "log' = log"
    using y assms(3) by simp_all
  have d: "distinct (map id_item (concat (map (\<lambda>x. items (fst x)) log')))"
    unfolding c using assms(2)
    by (simp add: getSyncQueueItems_def distinct_map inj_on_def)
  from fold_transport_failure [OF f d] assms(4,5) eq
  have rows: "rows_of (id_item q) s' =
           map (\<lambda>x. x\<lparr>retry_count := retry_count q + 1,
                       error_message := Some (if 3 \<le> retry_count q + 1
                                              then permanent_failure message else message)\<rparr>)
             (rows_of (id_item q) s)"
    and qin: "q \<in> set (concat (map (\<lambda>x. items (fst x)) log'))"
    and fl: "failed_items ?init + length (items request) \<le> failed_items resF"
    by simp_all
  have q: "q \<in> set (sync_queue s)"
    using qin unfolding c by (simp add: getSyncQueueItems_def)
  have "rows_of (id_item q) s = [q]"
    unfolding rows_of_def by (rule filter_distinct_key [OF assms(2) q])
  then have 1: "rows_of (id_item q) s' =
           [q\<lparr>retry_count := retry_count q + 1,
              error_message := Some (if 3 \<le> retry_count q + 1
                                     then permanent_failure message else message)\<rparr>]"
    using rows by simp
  have "items request \<noteq> []" using assms(5) by auto
  then have "0 < failed_items resF"
    using fl by (cases "items request") simp_all
  then have 2: "length (items request) \<le> failed_items results" and 3: "\<not> success results"
    using fl eq(1) by simp_all
  show ?thesis
    using q 1 2 3 b c eq(3) by simp
qed

text \<open>
  What does hold of every run: if an entry of the outbox is gone after a sync run, then
  some response of the run holds an outcome \<open>success\<close> or \<open>conflict\<close> that the engine
  attributed to that entry (\<open>batch.find\<close> returned it for the outcome's record id, which
  is the record id of the entry). \<open>handleSyncError\<close> keeps every row, also on exhaustion
  of the retries, and \<open>updateSyncStatus\<close> with the status \<open>error\<close> changes nothing.
\<close>

lemma removal_needs_attributed_success_or_conflict:
  assumes "0 < batchSize"
    and "sync e batchSize (recording tr) (s, (r, [])) = Some (results, s', (r', log))"
    and "q \<in> set (sync_queue s)" and "id_item q \<notin> id_item ` set (sync_queue s')"
  shows "(\<exists>request ps p item.
            (request, Inr ps) \<in> set log \<and> p \<in> set ps
            \<and> (status p = Success \<or> status p = Conflict)
            \<and> find (\<lambda>it. task_id it = client_id p) (items request) = Some item
            \<and> item \<in> set (items request) \<and> task_id item = client_id p
            \<and> id_item item = id_item q)
       \<and> map id_item (sync_queue (handleSyncError failed message s0)) = map id_item (sync_queue s0)
       \<and> updateSyncStatus e i SyncError serverData s0 = (Inr (), s0)"
proof -
  let ?init = "\<lparr>success = True, synced_items = 0, failed_items = 0, errors = []\<rparr>"
  obtain resF s'' r'' log' where
    f: "fold (sync_batch e (recording tr)) (map (\<lambda>x. items (fst x)) log') (?init, s, (r, []))
               = (resF, s'', (r'', [] @ log'))"
    and y: "sync e batchSize (recording tr) (s, (r, [])) =
               Some (resF\<lparr>success := (failed_items resF = 0)\<rparr>, s'', (r'', log'))"
    using sync_recording [OF assms(1), of s e tr r] by blast
  have eq: "s'' = s'" "log' = log"
    using y assms(2) by simp_all
  have "id_item q \<in> id_item ` set (sync_queue s)"
    using assms(3) by (rule imageI)
  from fold_deletion [OF f this] assms(4) eq
  obtain request ps p item where 1: "(request, Inr ps) \<in> set log" "p \<in> set ps"
    "status p = Success \<or> status p = Conflict"
    "find (\<lambda>it. task_id it = client_id p) (items request) = Some item"
    "id_item item = id_item q"
    by auto
  have 2: "item \<in> set (items request)" "task_id item = client_id p"
    using find_SomeD [OF 1(4)] by simp_all
  have "\<exists>request ps p item.
            (request, Inr ps) \<in> set log \<and> p \<in> set ps
            \<and> (status p = Success \<or> status p = Conflict)
            \<and> find (\<lambda>it. task_id it = client_id p) (items request) = Some item
            \<and> item \<in> set (items request) \<and> task_id item = client_id p
            \<and> id_item item = id_item q"
    using 1 2 by blast
  moreover have "updateSyncStatus e i SyncError serverData s0 = (Inr (), s0)"
    by (simp add: updateSyncStatus_def)
  ultimately show ?thesis
    by (simp add: handleSyncError_ids)
qed

theorem sync_transmits_in_creation_order_witness:
  "(0::nat) < 1
   \<and> (\<exists>results s' r' log.
         sync demo_client 1 (recording offline) (edited_node, ((), [])) = Some (results, s', (r', log))
         \<and> build_batches 1 0 (getSyncQueueItems edited_node) [] = Some (map (\<lambda>x. items (fst x)) log)
         \<and> concat (map (\<lambda>x. items (fst x)) log) = getSyncQueueItems edited_node)
   \<and> map operation (getSyncQueueItems edited_node) = [Create, Update]
   \<and> map created_at_item (getSyncQueueItems edited_node) = [1001, 1003]"
proof -
  have h: "(0::nat) < 1" by simp
  have v: "map operation (getSyncQueueItems edited_node) = [Create, Update]"
    "map created_at_item (getSyncQueueItems edited_node) = [1001, 1003]"
    by code_simp+
  show ?thesis
    using sync_transmits_in_creation_order [OF h, of demo_client offline edited_node "()"] h v
    by blast
qed

theorem transport_failure_fails_the_batch_witness:
  "(0::nat) < 1
   \<and> distinct (map id_item (sync_queue edited_node))
   \<and> (\<exists>results s' log.
         sync demo_client 1 (recording offline) (edited_node, ((), [])) = Some (results, s', ((), log))
         \<and> (\<lparr>items = [queued_create], client_timestamp = 1004\<rparr>, Inl ''Network Error'') \<in> set log
         \<and> rows_of ''cx'' s' =
             [queued_create\<lparr>retry_count := 1, error_message := Some ''Network Error''\<rparr>]
         \<and> \<not> success results)"
proof -
  let ?run = "sync demo_client 1 (recording offline) (edited_node, ((), []))"
  let ?request = "\<lparr>items = [queued_create], client_timestamp = 1004\<rparr>"
  have h: "(0::nat) < 1" by simp
  have d: "distinct (map id_item (sync_queue edited_node))"
    by code_simp
  have "?run \<noteq> None"
    by code_simp
  then obtain results s' u log where run: "?run = Some (results, s', (u, log))"
    by (cases ?run) auto
  have "(?request, Inl ''Network Error'') \<in> set (snd (snd (snd (the ?run))))"
    by code_simp
  then have m: "(?request, Inl ''Network Error'') \<in> set log"
    using run by simp
  have q: "queued_create \<in> set (items ?request)"
    by simp
  have i: "id_item queued_create = ''cx''" and c: "retry_count queued_create = 0"
    by (simp_all add: queued_create_def)
  from transport_failure_fails_the_batch [OF h d run m q]
  have "rows_of ''cx'' s' =
             [queued_create\<lparr>retry_count := 1, error_message := Some ''Network Error''\<rparr>]"
    and "\<not> success results"
    using i c by simp_all
  then show ?thesis
    using h d run m by (cases u) blast
qed

end
